theory Spec2Isabelle
  imports Complex_Main
begin

section \<open>Data model of the particle solver (src/cpu/src/simulation.cpp)\<close>

text \<open>
  The simulation driver of the solver is embedded as pure functions over records.
  A C++ \<^verbatim>\<open>double\<close> is idealised as a \<^typ>\<open>real\<close>. Where the source divides by a value that
  can be zero, the double result is an infinity or a NaN, which no real represents; the
  model makes these places explicit instead of using HOL's \<open>x / 0 = 0\<close>: \<^verbatim>\<open>tick\<close> and
  \<^verbatim>\<open>createRigidBody\<close> return the error \<open>NotANumber\<close>, \<^verbatim>\<open>mousePressed\<close> returns the
  particles whose velocity is not a number. Objects reached through pointers (particles,
  bodies, constraints) are modelled by value; a constraint object is the constructor
  call that made it.
  Record fields are constants in HOL, so the one-letter fields of the source are
  prefixed: \<open>p\<close>, \<open>ep\<close>, \<open>v\<close> of a particle are \<open>part_p\<close>, \<open>part_ep\<close>, \<open>part_v\<close>, and \<open>x\<close>,
  \<open>y\<close> of a vector are \<open>vec_x\<close>, \<open>vec_y\<close>.
\<close>

subsection \<open>Vectors (glm::dvec2)\<close>

record dvec2 =
  vec_x :: real
  vec_y :: real

definition dvec :: "real \<Rightarrow> real \<Rightarrow> dvec2" where
  "dvec a b = \<lparr>vec_x = a, vec_y = b\<rparr>"

definition vadd :: "dvec2 \<Rightarrow> dvec2 \<Rightarrow> dvec2" where
  "vadd a b = dvec (vec_x a + vec_x b) (vec_y a + vec_y b)"

definition vsub :: "dvec2 \<Rightarrow> dvec2 \<Rightarrow> dvec2" where
  "vsub a b = dvec (vec_x a - vec_x b) (vec_y a - vec_y b)"

definition smul :: "real \<Rightarrow> dvec2 \<Rightarrow> dvec2" where
  "smul k a = dvec (k * vec_x a) (k * vec_y a)"

text \<open>\<^verbatim>\<open>glm::length\<close> and \<^verbatim>\<open>glm::distance\<close>.\<close>

definition vlength :: "dvec2 \<Rightarrow> real" where
  "vlength a = sqrt (vec_x a * vec_x a + vec_y a * vec_y a)"

definition distance :: "dvec2 \<Rightarrow> dvec2 \<Rightarrow> real" where
  "distance a b = vlength (vsub a b)"

subsection \<open>Errors\<close>

text \<open>
  \<open>Exit1 msg\<close> is \<^verbatim>\<open>cout << msg << endl; exit(1);\<close>. \<open>IndexOutOfRange\<close> is
  \<^verbatim>\<open>QList::at\<close> called outside the list (an assertion failure of the Qt container).
  \<open>NotANumber\<close> marks a double operation whose result is not a real number (a division
  by zero); the source keeps running with that value, \<^verbatim>\<open>tick\<close> and
  \<^verbatim>\<open>createRigidBody\<close> of the model stop there.
\<close>

datatype error = Exit1 string | IndexOutOfRange | NotANumber

subsection \<open>Particles, bodies, constraints\<close>

text \<open>
  Modelled from the spec: the enumeration \<^verbatim>\<open>Phase\<close> is declared in a header that is not
  under src/; the spec lists the phases SOLID, FLUID, GAS and GRANULAR.
\<close>

datatype Phase = SOLID | FLUID | GAS | GRANULAR

text \<open>
  Modelled from the spec: the struct \<^verbatim>\<open>Particle\<close> is declared in a header that is not under
  src/. The fields are those that simulation.cpp reads and writes (\<open>p\<close>, \<open>ep\<close>, \<open>v\<close>,
  \<open>imass\<close>, \<open>ph\<close>, \<open>bod\<close>, \<open>sFriction\<close>, \<open>kFriction\<close>) and the mass scale \<open>sm\<close> and the
  sleep flag of the spec's data model.
\<close>

record Particle =
  part_p :: dvec2
  part_ep :: dvec2
  part_v :: dvec2
  imass :: real
  ph :: Phase
  bod :: int
  sFriction :: real
  kFriction :: real
  sm :: real
  sleeping :: bool

record SDFData =
  sdf_normal :: dvec2
  sdf_distance :: real

text \<open>
  The constraint classes are declared in headers that are not under src/. A constraint
  object is modelled by its constructor call, as simulation.cpp writes it. The pointer
  \<^verbatim>\<open>&m_bodies\<close> and \<^verbatim>\<open>&m_particles\<close> arguments are not data of the object and are left out;
  \<open>TotalShapeConstraint\<close> names its body by the body's index in \<^verbatim>\<open>m_bodies\<close>.
  \<open>BoundaryConstraint idx value isX isGreaterThan stabile\<close>: the fifth argument defaults
  to false where the source passes four.
\<close>

datatype Constraint =
    DistanceConstraint nat nat
  | TotalShapeConstraint nat
  | BoundaryConstraint nat real bool bool bool
  | ContactConstraint nat nat
  | RigidContactConstraint nat nat
  | TotalFluidConstraint real "nat list"
  | GasConstraint real "nat list"

text \<open>
  Modelled from the spec: the enumeration \<^verbatim>\<open>ConstraintGroup\<close> is declared in a header that
  is not under src/. simulation.cpp casts the integers \<open>0 .. NUM_CONSTRAINT_GROUPS - 1\<close>
  to groups; \<open>constraint_groups\<close> is the enumeration in the order of its integer values.
  The spec fixes that within a solver iteration CONTACT comes first, then STANDARD, then
  SHAPE; STABILIZATION, which the solver loop skips, is given the value 0.
\<close>

datatype ConstraintGroup = STABILIZATION | CONTACT | STANDARD | SHAPE

definition constraint_groups :: "ConstraintGroup list" where
  "constraint_groups = [STABILIZATION, CONTACT, STANDARD, SHAPE]"

definition NUM_CONSTRAINT_GROUPS :: nat where
  "NUM_CONSTRAINT_GROUPS = length constraint_groups"

text \<open>
  Modelled from the spec: the struct \<^verbatim>\<open>Body\<close> is declared in a header that is not under
  src/. \<open>body_particles\<close> are indices into \<^verbatim>\<open>m_particles\<close>, \<open>body_sdf\<close> maps a particle
  index to its SDF data, \<open>com\<close> is the center of mass, \<open>body_rs\<close> the offsets \<open>r_i\<close>,
  \<open>body_imass\<close> the inverse total mass, \<open>shape\<close> the pointer to the owned shape
  constraint (\<open>None\<close> is the null pointer).
\<close>

record Body =
  body_particles :: "nat list"
  body_sdf :: "nat \<rightharpoonup> SDFData"
  com :: dvec2
  body_rs :: "nat \<rightharpoonup> dvec2"
  body_imass :: real
  shape :: "Constraint option"

text \<open>
  The per-tick map \<^verbatim>\<open>QHash<ConstraintGroup, QList<Constraint *> > constraints\<close> of
  \<^verbatim>\<open>tick\<close> is only ever accessed with \<^verbatim>\<open>operator[]\<close>, which yields the empty list for a
  missing key: it is a total function. The member \<^verbatim>\<open>m_globalConstraints\<close> is also asked
  for its \<^verbatim>\<open>size()\<close> and with \<^verbatim>\<open>contains\<close>: it is a partial map.
\<close>

type_synonym constraint_map = "ConstraintGroup \<Rightarrow> Constraint list"

type_synonym constraint_hash = "ConstraintGroup \<rightharpoonup> Constraint list"

definition append_to :: "constraint_map \<Rightarrow> ConstraintGroup \<Rightarrow> Constraint \<Rightarrow> constraint_map" where
  "append_to cs g c = cs(g := cs g @ [c])"

text \<open>
  The members of the class \<^verbatim>\<open>Simulation\<close> that simulation.cpp uses (the class is declared
  in a header that is not under src/). The two matrix solvers have a state of the type
  \<open>'s\<close>.
\<close>

record 's Simulation =
  m_particles :: "Particle list"
  m_bodies :: "Body list"
  m_globalConstraints :: constraint_hash
  m_gravity :: dvec2
  m_xBoundaries :: dvec2
  m_yBoundaries :: dvec2
  m_standardSolver :: 's
  m_contactSolver :: 's
  m_point :: dvec2
  m_dimensions :: "int \<times> int"
  debug :: bool

text \<open>
  The macros of the build (declared in headers that are not under src/) and the
  operations of the classes that simulation.cpp calls but does not define are the
  parameters of the model: \<open>project\<close> is \<^verbatim>\<open>Constraint::project\<close> (it reads the bodies and
  rewrites the particles), \<open>setupM\<close>, \<open>setupSizes\<close> and \<open>solveAndUpdate\<close> are the
  operations of the matrix solver, whose state has the type \<open>'s\<close>. \<open>scalePolicy\<close> is the
  mass scale that \<^verbatim>\<open>Particle::scaleMass\<close> computes and \<open>sleepEps\<close> the sleep threshold
  of \<^verbatim>\<open>Particle::confirmGuess\<close>.
\<close>

record 's Config =
  PARTICLE_DIAM :: real
  PARTICLE_RAD :: real
  EPSILON :: real
  ALPHA :: real
  SOLVER_ITERATIONS :: nat
  STABILIZATION_ITERATIONS :: nat
  USE_STABILIZATION :: bool
  ITERATIVE :: bool
  sleepEps :: real
  scalePolicy :: "Particle \<Rightarrow> real"
  project :: "Body list \<Rightarrow> Constraint \<Rightarrow> Particle list \<Rightarrow> Particle list"
  setupM :: "'s \<Rightarrow> Particle list \<Rightarrow> bool \<Rightarrow> 's"
  setupSizes :: "'s \<Rightarrow> nat \<Rightarrow> Constraint list \<Rightarrow> 's"
  solveAndUpdate :: "'s \<Rightarrow> Particle list \<Rightarrow> Constraint list \<Rightarrow> bool \<Rightarrow> 's \<times> Particle list"

section \<open>tick: gathering the shape constraints of the bodies\<close>

text \<open>
  Lines 87 to 95. \<^verbatim>\<open>dynamic_cast<TotalShapeConstraint *>(b->shape)\<close> yields null for the
  null pointer and for a constraint of any other class.
\<close>

definition not_shape_msg :: string where
  "not_shape_msg = ''Rigid body's attached constraint was not a shape constraint.''"

fun add_shape :: "Body \<Rightarrow> constraint_map \<Rightarrow> error + constraint_map" where
  "add_shape b cs =
     (case shape b of
        Some (TotalShapeConstraint k) \<Rightarrow> Inr (append_to cs SHAPE (TotalShapeConstraint k))
      | _ \<Rightarrow> Inl (Exit1 not_shape_msg))"

fun gather_shapes :: "Body list \<Rightarrow> constraint_map \<Rightarrow> error + constraint_map" where
  "gather_shapes [] cs = Inr cs"
| "gather_shapes (b # bs) cs =
     (case add_shape b cs of Inl e \<Rightarrow> Inl e | Inr cs' \<Rightarrow> gather_shapes bs cs')"

section \<open>Operations of a particle\<close>

text \<open>
  Modelled from the spec: \<^verbatim>\<open>Particle::guess\<close> is defined in a file that is not under src/.
  The spec: \<open>guess(dt)\<close> returns \<open>p + dt * v\<close>, the predicted position before constraint
  projection.
\<close>

definition guess :: "real \<Rightarrow> Particle \<Rightarrow> dvec2" where
  "guess dt q = vadd (part_p q) (smul dt (part_v q))"

text \<open>
  Modelled from the spec: \<^verbatim>\<open>Particle::scaleMass\<close> is defined in a file that is not under
  src/. The spec: it recomputes \<open>sm\<close>; the scaling function is left open by the spec and
  is the parameter \<open>scalePolicy\<close>.
\<close>

definition scaleMass :: "'s Config \<Rightarrow> Particle \<Rightarrow> Particle" where
  "scaleMass cfg q = q\<lparr>sm := scalePolicy cfg q\<rparr>"

text \<open>
  Modelled from the spec: \<^verbatim>\<open>Particle::confirmGuess\<close> is defined in a file that is not
  under src/. The spec: it copies \<open>ep\<close> to \<open>p\<close> unless sleeping; if the distance from \<open>p\<close>
  to \<open>ep\<close> is below the sleep threshold, it sets \<open>v = 0\<close> and skips the position update;
  otherwise the particle wakes.
\<close>

definition confirmGuess :: "'s Config \<Rightarrow> Particle \<Rightarrow> Particle" where
  "confirmGuess cfg q =
     (if vlength (vsub (part_ep q) (part_p q)) < sleepEps cfg
      then q\<lparr>part_v := dvec 0 0, sleeping := True\<rparr>
      else q\<lparr>part_p := part_ep q, sleeping := False\<rparr>)"

text \<open>
  The loop \<^verbatim>\<open>for (int i = 0; i < m_particles.size(); i++) { Particle *p = m_particles[i]; ... }\<close>
  whose body rewrites the particle \<open>i\<close> only.
\<close>

definition for_each_particle :: "(Particle \<Rightarrow> Particle) \<Rightarrow> Particle list \<Rightarrow> Particle list" where
  "for_each_particle f ps = fold (\<lambda>i ps'. ps'[i := f (ps' ! i)]) [0 ..< length ps] ps"

section \<open>tick: gathering the global constraints\<close>

text \<open>
  Lines 98 to 103. \<^verbatim>\<open>m_globalConstraints.size()\<close> is the number of keys of the hash, and it
  is read again at every iteration; \<^verbatim>\<open>m_globalConstraints[(ConstraintGroup) i]\<close> is the
  non-const \<^verbatim>\<open>operator[]\<close>, which inserts the key with an empty list when it is missing.
\<close>

definition hash_size :: "constraint_hash \<Rightarrow> nat" where
  "hash_size h = length (filter (\<lambda>g. h g \<noteq> None) constraint_groups)"

definition hash_index :: "constraint_hash \<Rightarrow> ConstraintGroup \<Rightarrow> Constraint list \<times> constraint_hash" where
  "hash_index h g = (case h g of Some l \<Rightarrow> (l, h) | None \<Rightarrow> ([], h(g \<mapsto> [])))"

definition append_group :: "ConstraintGroup \<Rightarrow> Constraint list \<Rightarrow> constraint_map \<Rightarrow> constraint_map" where
  "append_group g grp cs = fold (\<lambda>j cs'. append_to cs' g (grp ! j)) [0 ..< length grp] cs"

function gather_globals :: "nat \<Rightarrow> constraint_hash \<Rightarrow> constraint_map \<Rightarrow> constraint_hash \<times> constraint_map" where
  "gather_globals i h cs =
     (if i < hash_size h
      then gather_globals (i + 1) (snd (hash_index h (constraint_groups ! i)))
             (append_group (constraint_groups ! i) (fst (hash_index h (constraint_groups ! i))) cs)
      else (h, cs))"
  by pat_completeness auto
termination
proof (relation "measure (\<lambda>(i, h, cs). length constraint_groups - i)")
  show "wf (measure (\<lambda>(i, h, cs). length constraint_groups - i))" by simp
next
  fix i :: nat and h :: constraint_hash and cs :: constraint_map
  assume "i < hash_size h"
  moreover have "hash_size h \<le> length constraint_groups"
    unfolding hash_size_def by (rule length_filter_le)
  ultimately show "((i + 1, snd (hash_index h (constraint_groups ! i)),
      append_group (constraint_groups ! i) (fst (hash_index h (constraint_groups ! i))) cs),
      (i, h, cs)) \<in> measure (\<lambda>(i, h, cs). length constraint_groups - i)"
    by simp
qed

text \<open>The list of a group in a hash, empty when the hash has no such key.\<close>

definition hash_get :: "constraint_hash \<Rightarrow> ConstraintGroup \<Rightarrow> Constraint list" where
  "hash_get h g = (case h g of None \<Rightarrow> [] | Some l \<Rightarrow> l)"

text \<open>The slot of a body holds a shape constraint.\<close>

fun holds_shape :: "Constraint option \<Rightarrow> bool" where
  "holds_shape (Some (TotalShapeConstraint k)) \<longleftrightarrow> True"
| "holds_shape _ \<longleftrightarrow> False"

definition tick_gather :: "'s Simulation \<Rightarrow> error + constraint_hash \<times> constraint_map" where
  "tick_gather s =
     (case gather_shapes (m_bodies s) (\<lambda>_. []) of
        Inl e \<Rightarrow> Inl e
      | Inr cs0 \<Rightarrow> Inr (gather_globals 0 (m_globalConstraints s) cs0))"

text \<open>
  The per-tick map after the two gathering loops, in closed form: the shape constraints
  of the bodies in SHAPE, followed in every group by the global constraints of the
  group.
\<close>

definition gathered :: "'s Simulation \<Rightarrow> constraint_map" where
  "gathered s =
     (\<lambda>g. (if g = SHAPE then map (\<lambda>b. the (shape b)) (m_bodies s) else [])
          @ hash_get (m_globalConstraints s) g)"

section \<open>tick: forces and prediction\<close>

text \<open>Lines 106 to 119, the body of the loop for one particle.\<close>

definition force_step :: "'s Config \<Rightarrow> real \<Rightarrow> dvec2 \<Rightarrow> Particle \<Rightarrow> Particle" where
  "force_step cfg seconds gravity q =
     (let myGravity = (if ph q = GAS then smul (ALPHA cfg) gravity else gravity);
          q1 = q\<lparr>part_v := vadd (part_v q) (smul seconds myGravity)\<rparr>;
          q2 = q1\<lparr>part_ep := guess seconds q1\<rparr>
      in scaleMass cfg q2)"

definition tick_forces :: "'s Config \<Rightarrow> real \<Rightarrow> 's Simulation \<Rightarrow> Particle list" where
  "tick_forces cfg seconds s =
     for_each_particle (force_step cfg seconds (m_gravity s)) (m_particles s)"

section \<open>tick: contact discovery\<close>

text \<open>
  Lines 129 to 157, the body of the inner loop for the pair \<open>(i, j)\<close> with
  \<open>p = m_particles[i]\<close> and \<open>p2 = m_particles[j]\<close>. The macro \<^verbatim>\<open>USE_STABILIZATION\<close> is the
  flag of the configuration.
\<close>

definition pair_contact :: "'s Config \<Rightarrow> Particle list \<Rightarrow> nat \<Rightarrow> nat \<Rightarrow> constraint_map \<Rightarrow> constraint_map" where
  "pair_contact cfg ps i j cs =
     (let p = ps ! i; p2 = ps ! j in
      if imass p = 0 \<and> imass p2 = 0 then cs
      else if ph p = SOLID \<and> ph p2 = SOLID \<and> bod p = bod p2 \<and> bod p \<noteq> - 1 then cs
      else
        let dist = distance (part_ep p) (part_ep p2) in
        if dist < PARTICLE_DIAM cfg - EPSILON cfg then
          if ph p = SOLID \<and> ph p2 = SOLID then
            let cs1 = append_to cs CONTACT (RigidContactConstraint i j) in
            if USE_STABILIZATION cfg
            then append_to cs1 STABILIZATION (RigidContactConstraint i j)
            else cs1
          else if ph p = SOLID \<or> ph p2 = SOLID then
            append_to cs CONTACT (ContactConstraint i j)
          else cs
        else cs)"

text \<open>
  Lines 160 to 182: one boundary constraint, copied to STABILIZATION with the flag
  \<open>stabile\<close> when stabilization is compiled in. \<open>xB\<close> and \<open>yB\<close> are \<^verbatim>\<open>m_xBoundaries\<close> and
  \<^verbatim>\<open>m_yBoundaries\<close>, whose components \<open>x\<close> and \<open>y\<close> are the lower and the upper bound.
\<close>

definition add_boundary :: "'s Config \<Rightarrow> nat \<Rightarrow> real \<Rightarrow> bool \<Rightarrow> bool \<Rightarrow> constraint_map \<Rightarrow> constraint_map" where
  "add_boundary cfg i val isX isGreaterThan cs =
     (let cs1 = append_to cs CONTACT (BoundaryConstraint i val isX isGreaterThan False) in
      if USE_STABILIZATION cfg
      then append_to cs1 STABILIZATION (BoundaryConstraint i val isX isGreaterThan True)
      else cs1)"

definition boundary_contacts :: "'s Config \<Rightarrow> dvec2 \<Rightarrow> dvec2 \<Rightarrow> Particle list \<Rightarrow> nat \<Rightarrow> constraint_map \<Rightarrow> constraint_map" where
  "boundary_contacts cfg xB yB ps i cs =
     (let p = ps ! i;
          cs1 = (if vec_x (part_ep p) < vec_x xB + PARTICLE_RAD cfg
                 then add_boundary cfg i (vec_x xB) True True cs
                 else if vec_x (part_ep p) > vec_y xB - PARTICLE_RAD cfg
                 then add_boundary cfg i (vec_y xB) True False cs
                 else cs)
      in if vec_y (part_ep p) < vec_x yB + PARTICLE_RAD cfg
         then add_boundary cfg i (vec_x yB) False True cs1
         else if vec_y (part_ep p) > vec_y yB - PARTICLE_RAD cfg
         then add_boundary cfg i (vec_y yB) False False cs1
         else cs1)"

text \<open>
  Lines 125 to 183: for every \<open>i\<close>, the inner loop over \<open>j = i + 1 .. size - 1\<close>, then the
  boundary tests of particle \<open>i\<close>. The particle list is not changed by these loops, so
  the bounds are fixed and the loops are folds over the index ranges.
\<close>

definition find_contacts :: "'s Config \<Rightarrow> Particle list \<Rightarrow> nat \<Rightarrow> constraint_map \<Rightarrow> constraint_map" where
  "find_contacts cfg ps i cs = fold (\<lambda>j. pair_contact cfg ps i j) [i + 1 ..< length ps] cs"

definition discover :: "'s Config \<Rightarrow> dvec2 \<Rightarrow> dvec2 \<Rightarrow> Particle list \<Rightarrow> constraint_map \<Rightarrow> constraint_map" where
  "discover cfg xB yB ps cs =
     fold (\<lambda>i cs'. boundary_contacts cfg xB yB ps i (find_contacts cfg ps i cs'))
       [0 ..< length ps] cs"

text \<open>
  The rule of the specification for one pair, in the spec's words: what is appended to
  CONTACT and what to STABILIZATION.
\<close>

definition spec_pair_skipped :: "Particle \<Rightarrow> Particle \<Rightarrow> bool" where
  "spec_pair_skipped p p2 \<longleftrightarrow>
     (imass p = 0 \<and> imass p2 = 0) \<or>
     (ph p = SOLID \<and> ph p2 = SOLID \<and> bod p = bod p2 \<and> bod p \<noteq> - 1)"

definition spec_pair_overlap :: "'s Config \<Rightarrow> Particle \<Rightarrow> Particle \<Rightarrow> bool" where
  "spec_pair_overlap cfg p p2 \<longleftrightarrow>
     \<not> spec_pair_skipped p p2 \<and>
     distance (part_ep p) (part_ep p2) < PARTICLE_DIAM cfg - EPSILON cfg"

definition spec_pair_CONTACT :: "'s Config \<Rightarrow> Particle \<Rightarrow> Particle \<Rightarrow> nat \<Rightarrow> nat \<Rightarrow> Constraint list" where
  "spec_pair_CONTACT cfg p p2 i j =
     (if spec_pair_overlap cfg p p2 \<and> ph p = SOLID \<and> ph p2 = SOLID
        then [RigidContactConstraint i j]
      else if spec_pair_overlap cfg p p2 \<and> (ph p = SOLID) \<noteq> (ph p2 = SOLID)
        then [ContactConstraint i j]
      else [])"

definition spec_pair_STABILIZATION :: "'s Config \<Rightarrow> Particle \<Rightarrow> Particle \<Rightarrow> nat \<Rightarrow> nat \<Rightarrow> Constraint list" where
  "spec_pair_STABILIZATION cfg p p2 i j =
     (if spec_pair_overlap cfg p p2 \<and> ph p = SOLID \<and> ph p2 = SOLID \<and> USE_STABILIZATION cfg
        then [RigidContactConstraint i j]
      else [])"

text \<open>The constraints that name the pair \<open>(i, j)\<close>.\<close>

fun on_pair :: "nat \<Rightarrow> nat \<Rightarrow> Constraint \<Rightarrow> bool" where
  "on_pair i j (RigidContactConstraint a b) \<longleftrightarrow> a = i \<and> b = j"
| "on_pair i j (ContactConstraint a b) \<longleftrightarrow> a = i \<and> b = j"
| "on_pair i j _ \<longleftrightarrow> False"

text \<open>What the loops append, as lists: used to state the loops in closed form.\<close>

definition pair_new :: "'s Config \<Rightarrow> Particle list \<Rightarrow> nat \<Rightarrow> nat \<Rightarrow> ConstraintGroup \<Rightarrow> Constraint list" where
  "pair_new cfg ps i j g =
     (if g = CONTACT then spec_pair_CONTACT cfg (ps ! i) (ps ! j) i j
      else if g = STABILIZATION then spec_pair_STABILIZATION cfg (ps ! i) (ps ! j) i j
      else [])"

definition boundary_new :: "'s Config \<Rightarrow> dvec2 \<Rightarrow> dvec2 \<Rightarrow> Particle list \<Rightarrow> nat \<Rightarrow> ConstraintGroup \<Rightarrow> Constraint list" where
  "boundary_new cfg xB yB ps i g = boundary_contacts cfg xB yB ps i (\<lambda>_. []) g"

definition discover_new :: "'s Config \<Rightarrow> dvec2 \<Rightarrow> dvec2 \<Rightarrow> Particle list \<Rightarrow> ConstraintGroup \<Rightarrow> Constraint list" where
  "discover_new cfg xB yB ps g =
     concat (map (\<lambda>i. concat (map (\<lambda>j. pair_new cfg ps i j g) [i + 1 ..< length ps])
                      @ boundary_new cfg xB yB ps i g)
               [0 ..< length ps])"

section \<open>tick: stabilization and the solver passes\<close>

text \<open>
  \<^verbatim>\<open>for (int k = 0; k < l.size(); k++) l.at(k)->project(&m_particles)\<close>: the constraints
  of a list are projected by index, each on the particles the one before has left.
\<close>

definition project_group :: "'s Config \<Rightarrow> Body list \<Rightarrow> Constraint list \<Rightarrow> Particle list \<Rightarrow> Particle list" where
  "project_group cfg bs l ps = fold (\<lambda>k ps'. project cfg bs (l ! k) ps') [0 ..< length l] ps"

text \<open>
  A counted loop \<^verbatim>\<open>for (int i = 0; i < n; i++) body\<close> whose body does not read \<open>i\<close>.
\<close>

fun repeat :: "nat \<Rightarrow> ('a \<Rightarrow> 'a) \<Rightarrow> 'a \<Rightarrow> 'a" where
  "repeat 0 f x = x"
| "repeat (Suc n) f x = repeat n f (f x)"

text \<open>
  Lines 188 to 210. The state is the contact solver and the particles; \<open>l\<close> is
  \<^verbatim>\<open>constraints[STABILIZATION]\<close>. In the batched build the loop is left by \<^verbatim>\<open>break\<close> when
  the list is empty.
\<close>

fun stabilize_loop :: "'s Config \<Rightarrow> Body list \<Rightarrow> Constraint list \<Rightarrow> nat \<Rightarrow> 's \<times> Particle list \<Rightarrow> 's \<times> Particle list" where
  "stabilize_loop cfg bs l 0 st = st"
| "stabilize_loop cfg bs l (Suc n) st =
     (if ITERATIVE cfg
      then stabilize_loop cfg bs l n (fst st, project_group cfg bs l (snd st))
      else if length l > 0
      then stabilize_loop cfg bs l n (solveAndUpdate cfg (fst st) (snd st) l True)
      else st)"

definition stabilize :: "'s Config \<Rightarrow> Body list \<Rightarrow> Constraint list \<Rightarrow> 's \<times> Particle list \<Rightarrow> 's \<times> Particle list" where
  "stabilize cfg bs l st =
     (if USE_STABILIZATION cfg then stabilize_loop cfg bs l (STABILIZATION_ITERATIONS cfg) st
      else st)"

text \<open>
  Lines 215 to 231, the iterative build: one outer iteration walks the groups by their
  integer value and skips STABILIZATION.
\<close>

definition solve_groups :: "'s Config \<Rightarrow> Body list \<Rightarrow> constraint_map \<Rightarrow> Particle list \<Rightarrow> Particle list" where
  "solve_groups cfg bs cs ps =
     fold (\<lambda>j ps'. let g = constraint_groups ! j in
                    if g = STABILIZATION then ps' else project_group cfg bs (cs g) ps')
       [0 ..< NUM_CONSTRAINT_GROUPS] ps"

text \<open>
  Lines 235 to 257, the batched build. The state is the standard solver, the contact
  solver and the particles. \<^verbatim>\<open>solveAndUpdate\<close> is called with two arguments here: its
  third parameter (declared in a header that is not under src/) takes its default, which
  is modelled as false.
\<close>

definition solve_batched_step :: "'s Config \<Rightarrow> Body list \<Rightarrow> constraint_map \<Rightarrow> 's \<times> 's \<times> Particle list \<Rightarrow> 's \<times> 's \<times> Particle list" where
  "solve_batched_step cfg bs cs st =
     (let ssol = fst st; csol = fst (snd st); ps = snd (snd st);
          r1 = (if length (cs CONTACT) > 0 then solveAndUpdate cfg csol ps (cs CONTACT) False
                else (csol, ps));
          r2 = (if length (cs STANDARD) > 0
                then solveAndUpdate cfg ssol (snd r1) (cs STANDARD) False
                else (ssol, snd r1));
          ps3 = (if length (cs SHAPE) > 0 then project_group cfg bs (cs SHAPE) (snd r2)
                 else snd r2)
      in (fst r2, fst r1, ps3))"

definition solve :: "'s Config \<Rightarrow> Body list \<Rightarrow> constraint_map \<Rightarrow> 's \<times> 's \<times> Particle list \<Rightarrow> 's \<times> 's \<times> Particle list" where
  "solve cfg bs cs st =
     (if ITERATIVE cfg
      then (fst st, fst (snd st),
            repeat (SOLVER_ITERATIONS cfg) (solve_groups cfg bs cs) (snd (snd st)))
      else
        let ssol = setupSizes cfg (fst st) (length (snd (snd st))) (cs STANDARD);
            csol = setupSizes cfg (fst (snd st)) (length (snd (snd st))) (cs CONTACT)
        in repeat (SOLVER_ITERATIONS cfg) (solve_batched_step cfg bs cs)
             (ssol, csol, snd (snd st)))"


section \<open>tick: velocity recovery and teardown\<close>

text \<open>
  Division of a vector by a double. With the divisor zero the double result is an
  infinity or a NaN: \<open>None\<close>.
\<close>

definition vdiv :: "dvec2 \<Rightarrow> real \<Rightarrow> dvec2 option" where
  "vdiv a k = (if k = 0 then None else Some (dvec (vec_x a / k) (vec_y a / k)))"

text \<open>Lines 261 to 272, the body of the loop for one particle.\<close>

definition recover_step :: "'s Config \<Rightarrow> real \<Rightarrow> Particle \<Rightarrow> Particle option" where
  "recover_step cfg seconds q =
     (case vdiv (vsub (part_ep q) (part_p q)) seconds of
        None \<Rightarrow> None
      | Some w \<Rightarrow> Some (confirmGuess cfg (q\<lparr>part_v := w\<rparr>)))"

text \<open>
  A loop over all particles whose body rewrites the particle \<open>i\<close> and may compute a
  value that is not a number.
\<close>

fun for_each_checked :: "(Particle \<Rightarrow> Particle option) \<Rightarrow> nat list \<Rightarrow> Particle list \<Rightarrow> error + Particle list" where
  "for_each_checked f [] ps = Inr ps"
| "for_each_checked f (i # rest) ps =
     (case f (ps ! i) of
        None \<Rightarrow> Inl NotANumber
      | Some q \<Rightarrow> for_each_checked f rest (ps[i := q]))"

definition recover :: "'s Config \<Rightarrow> real \<Rightarrow> Particle list \<Rightarrow> error + Particle list" where
  "recover cfg seconds ps = for_each_checked (recover_step cfg seconds) [0 ..< length ps] ps"

text \<open>
  Lines 276 to 285: \<^verbatim>\<open>for (int i = l.size() - 1; i >= 0; i--) { c = l.at(i); l.removeAt(i); delete(c); }\<close>
  for CONTACT, then for STABILIZATION. The state is the per-tick map and the list of
  the objects that have been deleted, in the order of their deletion.
\<close>

definition removeAt :: "'a list \<Rightarrow> nat \<Rightarrow> 'a list" where
  "removeAt l i = take i l @ drop (Suc i) l"

definition delete_group :: "ConstraintGroup \<Rightarrow> constraint_map \<times> Constraint list \<Rightarrow> constraint_map \<times> Constraint list" where
  "delete_group g st =
     fold (\<lambda>i st'. ((fst st')(g := removeAt (fst st' g) i), snd st' @ [fst st' g ! i]))
       (rev [0 ..< length (fst st g)]) st"

definition teardown :: "constraint_map \<Rightarrow> constraint_map \<times> Constraint list" where
  "teardown cs = delete_group STABILIZATION (delete_group CONTACT (cs, []))"

section \<open>tick\<close>

text \<open>
  What a run of \<^verbatim>\<open>tick\<close> leaves: the simulation, the local map \<^verbatim>\<open>constraints\<close> as it is
  when the function returns, and the constraint objects it has deleted.
\<close>

record 's TickResult =
  sim :: "'s Simulation"
  constraints :: constraint_map
  deleted :: "Constraint list"

text \<open>
  Lines 122 to 258 of \<^verbatim>\<open>tick\<close>: from the particles \<open>ps1\<close> that the force phase has left
  and the gathered map \<open>cs1\<close> to the map after contact discovery and the solvers and
  particles after the solver passes.
\<close>

definition tick_discover :: "'s Config \<Rightarrow> 's Simulation \<Rightarrow> Particle list \<Rightarrow> constraint_map \<Rightarrow> constraint_map" where
  "tick_discover cfg s ps1 cs1 = discover cfg (m_xBoundaries s) (m_yBoundaries s) ps1 cs1"

definition tick_solve :: "'s Config \<Rightarrow> 's Simulation \<Rightarrow> Particle list \<Rightarrow> constraint_map \<Rightarrow> 's \<times> 's \<times> Particle list" where
  "tick_solve cfg s ps1 cs2 =
     (let csol1 = setupM cfg (m_contactSolver s) ps1 True;
          csol2 = setupSizes cfg csol1 (length ps1) (cs2 STABILIZATION);
          st3 = stabilize cfg (m_bodies s) (cs2 STABILIZATION) (csol2, ps1)
      in solve cfg (m_bodies s) cs2 (m_standardSolver s, fst st3, snd st3))"

text \<open>
  The whole of \<^verbatim>\<open>tick\<close>, lines 82 to 286, phase after phase. \<^verbatim>\<open>setupM\<close> of the contact
  solver (line 122) stands between the force phase and contact discovery and reads the
  particles only; it is evaluated in \<open>tick_solve\<close>, where its result is used.
\<close>

text \<open>
  The map after contact discovery and the state after the solver passes of a tick that
  has passed the gathering phase.
\<close>

definition tick_contacts :: "'s Config \<Rightarrow> real \<Rightarrow> 's Simulation \<Rightarrow> constraint_map" where
  "tick_contacts cfg seconds s = tick_discover cfg s (tick_forces cfg seconds s) (gathered s)"

definition tick_solved :: "'s Config \<Rightarrow> real \<Rightarrow> 's Simulation \<Rightarrow> 's \<times> 's \<times> Particle list" where
  "tick_solved cfg seconds s =
     tick_solve cfg s (tick_forces cfg seconds s) (tick_contacts cfg seconds s)"

definition tick_finish :: "'s Config \<Rightarrow> real \<Rightarrow> 's Simulation \<Rightarrow> constraint_hash \<Rightarrow> constraint_map \<Rightarrow> 's \<times> 's \<times> Particle list \<Rightarrow> error + 's TickResult" where
  "tick_finish cfg seconds s h1 cs2 st =
     (case recover cfg seconds (snd (snd st)) of
        Inl e \<Rightarrow> Inl e
      | Inr ps4 \<Rightarrow>
          Inr \<lparr>sim = s\<lparr>m_particles := ps4, m_globalConstraints := h1,
                       m_standardSolver := fst st, m_contactSolver := fst (snd st)\<rparr>,
               constraints = fst (teardown cs2),
               deleted = snd (teardown cs2)\<rparr>)"

definition tick_run :: "'s Config \<Rightarrow> real \<Rightarrow> 's Simulation \<Rightarrow> error + 's TickResult" where
  "tick_run cfg seconds s =
     (case tick_gather s of
        Inl e \<Rightarrow> Inl e
      | Inr hc \<Rightarrow>
          (let ps1 = tick_forces cfg seconds s;
               cs2 = tick_discover cfg s ps1 (snd hc);
               st = tick_solve cfg s ps1 cs2
           in tick_finish cfg seconds s (fst hc) cs2 st))"

definition tick :: "'s Config \<Rightarrow> real \<Rightarrow> 's Simulation \<Rightarrow> error + 's Simulation" where
  "tick cfg seconds s =
     (case tick_run cfg seconds s of Inl e \<Rightarrow> Inl e | Inr r \<Rightarrow> Inr (sim r))"

section \<open>tick over a prediction that keeps immovable particles in place\<close>

text \<open>
  Modelled from the spec: \<^verbatim>\<open>Particle::guess\<close> is defined in a file that is not under src/,
  and the spec speaks of it in two places. The operation is described as returning
  \<open>p + dt * v\<close>, which is \<open>guess\<close> above. The data model calls a particle with
  \<open>imass = 0\<close> immovable, and the source reads the inverse mass 0 in the same way (the
  comment of line 132, the message of line 304 about a point of infinite mass, the
  anchor of the pendulum that line 616 builds with the inverse mass 0). \<open>guess_immovable\<close>
  is the prediction that follows both: \<open>p\<close> for a particle with \<open>imass = 0\<close>, and
  \<open>p + dt * v\<close> for every other particle.
\<close>

definition guess_immovable :: "real \<Rightarrow> Particle \<Rightarrow> dvec2" where
  "guess_immovable dt q = (if imass q = 0 then part_p q else guess dt q)"

text \<open>
  Lines 106 to 119 for one particle, the loop over the particles and the whole of
  \<^verbatim>\<open>tick\<close>, with the prediction that line 116 calls as the parameter \<open>g\<close>. For \<open>g = guess\<close>
  they are \<open>force_step\<close>, \<open>tick_forces\<close> and \<open>tick_run\<close>.
\<close>

definition force_step_with :: "(real \<Rightarrow> Particle \<Rightarrow> dvec2) \<Rightarrow> 's Config \<Rightarrow> real \<Rightarrow> dvec2 \<Rightarrow> Particle \<Rightarrow> Particle" where
  "force_step_with g cfg seconds gravity q =
     (let myGravity = (if ph q = GAS then smul (ALPHA cfg) gravity else gravity);
          q1 = q\<lparr>part_v := vadd (part_v q) (smul seconds myGravity)\<rparr>;
          q2 = q1\<lparr>part_ep := g seconds q1\<rparr>
      in scaleMass cfg q2)"

definition tick_forces_with :: "(real \<Rightarrow> Particle \<Rightarrow> dvec2) \<Rightarrow> 's Config \<Rightarrow> real \<Rightarrow> 's Simulation \<Rightarrow> Particle list" where
  "tick_forces_with g cfg seconds s =
     for_each_particle (force_step_with g cfg seconds (m_gravity s)) (m_particles s)"

definition tick_run_with :: "(real \<Rightarrow> Particle \<Rightarrow> dvec2) \<Rightarrow> 's Config \<Rightarrow> real \<Rightarrow> 's Simulation \<Rightarrow> error + 's TickResult" where
  "tick_run_with g cfg seconds s =
     (case tick_gather s of
        Inl e \<Rightarrow> Inl e
      | Inr hc \<Rightarrow>
          (let ps1 = tick_forces_with g cfg seconds s;
               cs2 = tick_discover cfg s ps1 (snd hc);
               st = tick_solve cfg s ps1 cs2
           in tick_finish cfg seconds s (fst hc) cs2 st))"

section \<open>clear and init\<close>

text \<open>
  Lines 23 to 32: \<^verbatim>\<open>for (int i = l.size() - 1; i >= 0; i--) { x = l.at(i); l.removeAt(i); delete(x); }\<close>.
\<close>

definition delete_all :: "'a list \<Rightarrow> 'a list" where
  "delete_all l = fold (\<lambda>i l'. removeAt l' i) (rev [0 ..< length l]) l"

text \<open>
  Lines 38 to 42: the constraint \<open>c\<close> is removed from the list of every group that the
  hash contains. Objects are modelled by value, so \<^verbatim>\<open>removeAll(c)\<close> removes the
  constraints equal to \<open>c\<close>.
\<close>

definition remove_everywhere :: "Constraint \<Rightarrow> constraint_hash \<Rightarrow> constraint_hash" where
  "remove_everywhere c h =
     fold (\<lambda>k h'. case h' (constraint_groups ! k) of
                    None \<Rightarrow> h'
                  | Some l \<Rightarrow> h'(constraint_groups ! k \<mapsto> removeAll c l))
       [0 ..< NUM_CONSTRAINT_GROUPS] h"

text \<open>
  Lines 34 to 45, the body of the loop for the group \<open>i\<close>: \<open>grp\<close> is a copy of the list of
  the group, walked from its last element to its first.
\<close>

definition clear_group :: "nat \<Rightarrow> constraint_hash \<Rightarrow> constraint_hash" where
  "clear_group i h =
     (case h (constraint_groups ! i) of
        None \<Rightarrow> h
      | Some grp \<Rightarrow> fold (\<lambda>j h'. remove_everywhere (grp ! j) h') (rev [0 ..< length grp]) h)"

definition clear_globals :: "constraint_hash \<Rightarrow> constraint_hash" where
  "clear_globals h = fold clear_group [0 ..< NUM_CONSTRAINT_GROUPS] h"

definition clear :: "'s Simulation \<Rightarrow> 's Simulation" where
  "clear s = s\<lparr>m_particles := delete_all (m_particles s),
               m_bodies := delete_all (m_bodies s),
               m_globalConstraints := clear_globals (m_globalConstraints s)\<rparr>"

text \<open>
  The scene tags of \<^verbatim>\<open>init\<close>. \<open>UNLISTED_TEST\<close> stands for any other value of the
  enumeration (declared in a header that is not under src/), which the \<^verbatim>\<open>switch\<close> sends to
  its \<^verbatim>\<open>default\<close> branch.
\<close>

datatype SimulationType =
    FRICTION_TEST | GRANULAR_TEST | STACKS_TEST | WALL_TEST | PENDULUM_TEST
  | FLUID_TEST | FLUID_SOLID_TEST | GAS_TEST | UNLISTED_TEST

text \<open>
  The scene builders place the particles of a demo, some of them with random numbers;
  the specification leaves the scene presets out of its scope. They are parameters of
  the model: each takes the simulation that \<^verbatim>\<open>init\<close> has prepared and returns the built
  one, or the error of a construction that has failed.
\<close>

record 's Scenes =
  initFriction :: "'s Simulation \<Rightarrow> error + 's Simulation"
  initGranular :: "'s Simulation \<Rightarrow> error + 's Simulation"
  initBoxes :: "'s Simulation \<Rightarrow> error + 's Simulation"
  initWall :: "'s Simulation \<Rightarrow> error + 's Simulation"
  initPendulum :: "'s Simulation \<Rightarrow> error + 's Simulation"
  initFluid :: "'s Simulation \<Rightarrow> error + 's Simulation"
  initFluidSolid :: "'s Simulation \<Rightarrow> error + 's Simulation"
  initGas :: "'s Simulation \<Rightarrow> error + 's Simulation"

text \<open>Lines 56 to 75, the \<^verbatim>\<open>switch\<close>.\<close>

fun build_scene :: "'s Scenes \<Rightarrow> SimulationType \<Rightarrow> 's Simulation \<Rightarrow> error + 's Simulation" where
  "build_scene sc FRICTION_TEST = initFriction sc"
| "build_scene sc GRANULAR_TEST = initGranular sc"
| "build_scene sc STACKS_TEST = initBoxes sc"
| "build_scene sc WALL_TEST = initWall sc"
| "build_scene sc PENDULUM_TEST = initPendulum sc"
| "build_scene sc FLUID_TEST = initFluid sc"
| "build_scene sc FLUID_SOLID_TEST = initFluidSolid sc"
| "build_scene sc GAS_TEST = initGas sc"
| "build_scene sc UNLISTED_TEST = initBoxes sc"

text \<open>
  Lines 49 to 79. \<^verbatim>\<open>setupM\<close> is called with one argument: its second parameter takes its
  default, which is modelled as false.
\<close>

definition init_prepare :: "'s Simulation \<Rightarrow> 's Simulation" where
  "init_prepare s = (clear s)\<lparr>m_gravity := dvec 0 (- (98 / 10))\<rparr>"

definition init :: "'s Config \<Rightarrow> 's Scenes \<Rightarrow> SimulationType \<Rightarrow> 's Simulation \<Rightarrow> error + 's Simulation" where
  "init cfg sc type s =
     (case build_scene sc type (init_prepare s) of
        Inl e \<Rightarrow> Inl e
      | Inr s3 \<Rightarrow>
          Inr (s3\<lparr>m_standardSolver := setupM cfg (m_standardSolver s3) (m_particles s3) False\<rparr>))"

section \<open>createRigidBody\<close>

text \<open>
  Modelled from the spec: the constructor \<^verbatim>\<open>Body()\<close> is defined in a file that is not
  under src/; a new body has no particles, no SDF data and no shape constraint.
\<close>

definition new_Body :: Body where
  "new_Body = \<lparr>body_particles = [], body_sdf = Map.empty, com = dvec 0 0,
     body_rs = Map.empty, body_imass = 0, shape = None\<rparr>"

text \<open>
  Modelled from the spec: \<^verbatim>\<open>Body::updateCOM\<close> is defined in a file that is not under src/.
  The spec: \<open>com\<close> is the center of mass of the body's particles, each weighted by its
  mass \<open>1 / imass\<close>, and the inverse total mass of the body is \<open>1 / \<Sum>(1 / imass)\<close>. The
  flag selects the predicted positions; \<^verbatim>\<open>createRigidBody\<close> passes false.
\<close>

definition updateCOM :: "Body \<Rightarrow> Particle list \<Rightarrow> bool \<Rightarrow> Body" where
  "updateCOM b ps useEstimates =
     b\<lparr>com := smul (body_imass b)
        (fold (\<lambda>idx total.
                 vadd total (smul (1 / imass (ps ! idx))
                   (if useEstimates then part_ep (ps ! idx) else part_p (ps ! idx))))
           (body_particles b) (dvec 0 0))\<rparr>"

text \<open>
  Modelled from the spec: \<^verbatim>\<open>Body::computeRs\<close> is defined in a file that is not under src/.
  The spec: \<open>r_i\<close> are the offsets of the particles from the center of mass in the initial
  frame.
\<close>

definition computeRs :: "Body \<Rightarrow> Particle list \<Rightarrow> Body" where
  "computeRs b ps =
     b\<lparr>body_rs := fold (\<lambda>idx rs. rs(idx \<mapsto> vsub (part_p (ps ! idx)) (com b)))
                     (body_particles b) (body_rs b)\<rparr>"

definition too_few_msg :: string where
  "too_few_msg = ''Rigid bodies must be at least 2 points.''"

definition infinite_mass_msg :: string where
  "infinite_mass_msg = ''A rigid body cannot have a point of infinite mass.''"

text \<open>
  Lines 298 to 313: the loop over the vertices. Its state is \<open>totalMass\<close>, the particle
  list of the simulation and the body. \<^verbatim>\<open>sdfData->at(i)\<close> is outside the list when
  \<open>sdfData\<close> is shorter than \<open>verts\<close>.
\<close>

fun add_vertices :: "Particle list \<Rightarrow> SDFData list \<Rightarrow> nat \<Rightarrow> nat \<Rightarrow> nat list \<Rightarrow> real \<times> Particle list \<times> Body \<Rightarrow> error + real \<times> Particle list \<times> Body" where
  "add_vertices verts sdfData offset bodyIdx [] st = Inr st"
| "add_vertices verts sdfData offset bodyIdx (i # rest) st =
     (let totalMass = fst st; ps = fst (snd st); body = snd (snd st);
          q = (verts ! i)\<lparr>bod := int bodyIdx, ph := SOLID\<rparr>
      in if imass q = 0 then Inl (Exit1 infinite_mass_msg)
         else if \<not> i < length sdfData then Inl IndexOutOfRange
         else add_vertices verts sdfData offset bodyIdx rest
                (totalMass + 1 / imass q, ps @ [q],
                 body\<lparr>body_particles := body_particles body @ [i + offset],
                      body_sdf := (body_sdf body)(i + offset \<mapsto> sdfData ! i)\<rparr>))"

text \<open>The SDF entries that the loop writes for the indices \<open>js\<close>, as one map.\<close>

definition sdf_entries :: "nat \<Rightarrow> SDFData list \<Rightarrow> nat list \<Rightarrow> (nat \<rightharpoonup> SDFData) \<Rightarrow> (nat \<rightharpoonup> SDFData)" where
  "sdf_entries offset sdfData js m = fold (\<lambda>i m'. m'(i + offset \<mapsto> sdfData ! i)) js m"

text \<open>
  Lines 288 to 323. \<open>1.0 / totalMass\<close> is not a number when the masses sum to zero, which
  needs a particle of negative inverse mass.
\<close>

definition createRigidBody :: "Particle list \<Rightarrow> SDFData list \<Rightarrow> 's Simulation \<Rightarrow> error + Body \<times> 's Simulation" where
  "createRigidBody verts sdfData s =
     (if length verts \<le> 1 then Inl (Exit1 too_few_msg)
      else
        case add_vertices verts sdfData (length (m_particles s)) (length (m_bodies s))
               [0 ..< length verts] (0, m_particles s, new_Body) of
          Inl e \<Rightarrow> Inl e
        | Inr st \<Rightarrow>
            if fst st = 0 then Inl NotANumber
            else
              let ps = fst (snd st);
                  body1 = (snd (snd st))\<lparr>body_imass := 1 / fst st\<rparr>;
                  body2 = updateCOM body1 ps False;
                  body3 = computeRs body2 ps;
                  body4 = body3\<lparr>shape := Some (TotalShapeConstraint (length (m_bodies s)))\<rparr>
              in Inr (body4, s\<lparr>m_particles := ps, m_bodies := m_bodies s @ [body4]\<rparr>))"

section \<open>mousePressed\<close>

text \<open>
  \<^verbatim>\<open>glm::normalize\<close> multiplies the vector by the inverse square root of its dot product
  with itself: for the zero vector the result is not a number.
\<close>

definition normalize_vec :: "dvec2 \<Rightarrow> dvec2 option" where
  "normalize_vec a = (if vlength a = 0 then None else Some (smul (1 / vlength a) a))"

text \<open>
  Lines 801 and 802, for one particle: \<open>None\<close> when the particle lies on the point, where
  the normalised direction and with it the new velocity are not numbers.
\<close>

definition press_step :: "dvec2 \<Rightarrow> Particle \<Rightarrow> Particle option" where
  "press_step pt q =
     (case normalize_vec (vsub pt (part_p q)) of
        None \<Rightarrow> None
      | Some dir \<Rightarrow> Some (q\<lparr>part_v := vadd (part_v q) (smul 7 dir)\<rparr>))"

text \<open>
  Lines 796 to 805. The loop has no early exit: every particle is visited, whatever
  happened to the particles before it, and \<open>m_point\<close> is set at the end. The velocity of a
  particle that lies on the point becomes a NaN, which the real-valued record cannot
  hold: the model leaves the record of such a particle as it is and returns, beside the
  simulation, the indices of the particles whose velocity is not a number. The state of
  the loop is the particle list and these indices.
\<close>

definition press_particle :: "dvec2 \<Rightarrow> nat \<Rightarrow> Particle list \<times> nat list \<Rightarrow> Particle list \<times> nat list" where
  "press_particle pt i st =
     (case press_step pt (fst st ! i) of
        None \<Rightarrow> (fst st, snd st @ [i])
      | Some q \<Rightarrow> ((fst st)[i := q], snd st))"

definition mousePressed :: "dvec2 \<Rightarrow> 's Simulation \<Rightarrow> 's Simulation \<times> nat list" where
  "mousePressed pt s =
     (let st = fold (press_particle pt) [0 ..< length (m_particles s)] (m_particles s, [])
      in (s\<lparr>m_particles := fst st, m_point := pt\<rparr>, snd st))"

text \<open>
  The impulse in the words of the specification: radially outward, away from the point
  \<open>pt\<close> along the line from \<open>pt\<close> to the particle, with the magnitude 7.
\<close>

definition spec_press_step :: "dvec2 \<Rightarrow> Particle \<Rightarrow> Particle option" where
  "spec_press_step pt q =
     (case normalize_vec (vsub (part_p q) pt) of
        None \<Rightarrow> None
      | Some dir \<Rightarrow> Some (q\<lparr>part_v := vadd (part_v q) (smul 7 dir)\<rparr>))"

section \<open>Concrete inputs\<close>

text \<open>
  A configuration and particles on which the theorems are run: diameter 1, radius 1/2,
  stabilization compiled in, the iterative solver, projections that leave the particles
  as they are.
\<close>

definition demo_config :: "unit Config" where
  "demo_config = \<lparr>PARTICLE_DIAM = 1, PARTICLE_RAD = 1 / 2, EPSILON = 1 / 1000, ALPHA = 1 / 2,
     SOLVER_ITERATIONS = 2, STABILIZATION_ITERATIONS = 2, USE_STABILIZATION = True,
     ITERATIVE = True, sleepEps = 1 / 1000, scalePolicy = (\<lambda>p. 1),
     project = (\<lambda>bs c ps. ps), setupM = (\<lambda>s ps b. s), setupSizes = (\<lambda>s n cs. s),
     solveAndUpdate = (\<lambda>s ps cs b. (s, ps))\<rparr>"

definition demo_particle :: "real \<Rightarrow> real \<Rightarrow> real \<Rightarrow> Phase \<Rightarrow> int \<Rightarrow> Particle" where
  "demo_particle a b im phase body =
     \<lparr>part_p = dvec a b, part_ep = dvec a b, part_v = dvec 0 0, imass = im, ph = phase,
      bod = body, sFriction = 0, kFriction = 0, sm = 1, sleeping = False\<rparr>"

definition demo_body :: "Constraint option \<Rightarrow> Body" where
  "demo_body sh = new_Body\<lparr>shape := sh\<rparr>"

definition demo_sim :: "Particle list \<Rightarrow> Body list \<Rightarrow> unit Simulation" where
  "demo_sim ps bs =
     \<lparr>m_particles = ps, m_bodies = bs, m_globalConstraints = Map.empty,
      m_gravity = dvec 0 (- (98 / 10)), m_xBoundaries = dvec (- 20) 20,
      m_yBoundaries = dvec 0 1000000, m_standardSolver = (), m_contactSolver = (),
      m_point = dvec 0 0, m_dimensions = (0, 0), debug = True\<rparr>"

text \<open>
  A configuration whose projection records the constraint it is called on: it appends a
  particle whose inverse mass is 1 for a ContactConstraint, 2 for a DistanceConstraint
  and 3 for any other constraint.
\<close>

definition marker_config :: "unit Config" where
  "marker_config =
     demo_config\<lparr>project := (\<lambda>bs c ps. ps @ [demo_particle 0 0
        (case c of ContactConstraint i j \<Rightarrow> 1 | DistanceConstraint i j \<Rightarrow> 2 | _ \<Rightarrow> 3)
        SOLID 0])\<rparr>"

definition demo_sdf :: SDFData where
  "demo_sdf = \<lparr>sdf_normal = dvec 0 1, sdf_distance = 1 / 2\<rparr>"

text \<open>
  Scene builders for running init: the builder number \<open>k\<close> appends one particle at
  \<open>(k, 0)\<close>.
\<close>

definition demo_builder :: "real \<Rightarrow> unit Simulation \<Rightarrow> error + unit Simulation" where
  "demo_builder k s = Inr (s\<lparr>m_particles := m_particles s @ [demo_particle k 0 1 SOLID (- 1)]\<rparr>)"

definition demo_scenes :: "unit Scenes" where
  "demo_scenes = \<lparr>initFriction = demo_builder 1, initGranular = demo_builder 2,
     initBoxes = demo_builder 3, initWall = demo_builder 4, initPendulum = demo_builder 5,
     initFluid = demo_builder 6, initFluidSolid = demo_builder 7, initGas = demo_builder 8\<rparr>"

definition used_sim :: "unit Simulation" where
  "used_sim =
     (demo_sim [demo_particle 0 0 0 SOLID (- 1)] [demo_body None])
       \<lparr>m_globalConstraints := [STANDARD \<mapsto> [DistanceConstraint 0 1]]\<rparr>"

section \<open>Properties of contact discovery\<close>

lemma append_to_apply: "append_to cs g c h = (if h = g then cs g @ [c] else cs h)"
  by (simp add: append_to_def)

lemma pair_contact_appends:
  "pair_contact cfg ps i j cs = (\<lambda>g. cs g @ pair_new cfg ps i j g)"
  by (rule ext)
     (auto simp: pair_contact_def pair_new_def spec_pair_CONTACT_def spec_pair_STABILIZATION_def
        spec_pair_overlap_def spec_pair_skipped_def append_to_apply Let_def)

lemma boundary_contacts_appends:
  "boundary_contacts cfg xB yB ps i cs = (\<lambda>g. cs g @ boundary_new cfg xB yB ps i g)"
  unfolding boundary_new_def boundary_contacts_def Let_def
  by (rule ext) (simp add: add_boundary_def append_to_apply Let_def)

lemma fold_appends:
  "fold (\<lambda>x cs. (\<lambda>g. cs g @ f x g)) xs cs = (\<lambda>g. cs g @ concat (map (\<lambda>x. f x g) xs))"
  by (induction xs arbitrary: cs) auto

lemma find_contacts_appends:
  "find_contacts cfg ps i cs =
     (\<lambda>g. cs g @ concat (map (\<lambda>j. pair_new cfg ps i j g) [i + 1 ..< length ps]))"
  unfolding find_contacts_def pair_contact_appends by (rule fold_appends)

lemma discover_appends:
  "discover cfg xB yB ps cs = (\<lambda>g. cs g @ discover_new cfg xB yB ps g)"
proof -
  have "discover cfg xB yB ps cs =
      fold (\<lambda>i cs'. (\<lambda>g. cs' g @ (concat (map (\<lambda>j. pair_new cfg ps i j g) [i + 1 ..< length ps])
                                 @ boundary_new cfg xB yB ps i g)))
        [0 ..< length ps] cs"
    unfolding discover_def
    by (subst boundary_contacts_appends, subst find_contacts_appends) simp
  then show ?thesis
    unfolding discover_new_def by (simp only: fold_appends)
qed

lemma concat_map_single:
  assumes "distinct xs" and "\<And>x. x \<in> set xs \<Longrightarrow> x \<noteq> k \<Longrightarrow> f x = []"
  shows "concat (map f xs) = (if k \<in> set xs then f k else [])"
  using assms by (induction xs) auto

lemma filter_pair_new:
  "filter (on_pair i j) (pair_new cfg ps a b g) =
     (if a = i \<and> b = j then pair_new cfg ps i j g else [])"
  by (auto simp: pair_new_def spec_pair_CONTACT_def spec_pair_STABILIZATION_def)

lemma filter_boundary_new: "filter (on_pair i j) (boundary_new cfg xB yB ps a g) = []"
  by (simp add: boundary_new_def boundary_contacts_def add_boundary_def append_to_apply Let_def)

lemma filter_inner_new:
  "filter (on_pair i j) (concat (map (\<lambda>b. pair_new cfg ps a b g) [a + 1 ..< length ps])) =
     (if a = i \<and> i < j \<and> j < length ps then pair_new cfg ps i j g else [])"
proof -
  have "filter (on_pair i j) (concat (map (\<lambda>b. pair_new cfg ps a b g) [a + 1 ..< length ps])) =
        concat (map (\<lambda>b. if a = i \<and> b = j then pair_new cfg ps i j g else [])
                  [a + 1 ..< length ps])"
    by (simp add: filter_concat comp_def filter_pair_new)
  also have "\<dots> = (if j \<in> set [a + 1 ..< length ps]
                   then (if a = i \<and> j = j then pair_new cfg ps i j g else []) else [])"
    by (rule concat_map_single) auto
  finally show ?thesis by auto
qed

lemma filter_discover_new:
  "filter (on_pair i j) (discover_new cfg xB yB ps g) =
     (if i < j \<and> j < length ps then pair_new cfg ps i j g else [])"
proof -
  have "filter (on_pair i j) (discover_new cfg xB yB ps g) =
        concat (map (\<lambda>a. if a = i \<and> i < j \<and> j < length ps then pair_new cfg ps i j g else [])
                  [0 ..< length ps])"
  proof -
    have inner: "\<And>a. filter (on_pair i j)
        (concat (map (\<lambda>b. pair_new cfg ps a b g) [a + 1 ..< length ps])
           @ boundary_new cfg xB yB ps a g) =
        (if a = i \<and> i < j \<and> j < length ps then pair_new cfg ps i j g else [])"
      by (simp only: filter_append filter_inner_new filter_boundary_new append_Nil2)
    show ?thesis
      unfolding discover_new_def
      by (simp only: filter_concat map_map comp_def inner)
  qed
  also have "\<dots> = (if i \<in> set [0 ..< length ps]
                   then (if i = i \<and> i < j \<and> j < length ps then pair_new cfg ps i j g else [])
                   else [])"
    by (rule concat_map_single) auto
  finally show ?thesis by auto
qed

text \<open>
  C1. Contact discovery, for every pair \<open>i < j\<close> of particles: among the constraints that
  discovery appends to CONTACT, those on the pair are none when both particles are
  immovable or both are SOLID in the same body (\<open>bod \<noteq> -1\<close>); otherwise, when the
  predicted positions are closer than \<open>PARTICLE_DIAM - EPSILON\<close>, one
  RigidContactConstraint if both are SOLID, one ContactConstraint if exactly one is
  SOLID, none if neither is; and STABILIZATION receives a second RigidContactConstraint
  exactly when both are SOLID and stabilization is enabled. The lists that were in the
  map before are kept as a prefix.
\<close>

theorem contact_discovery_pair:
  assumes "i < j" and "j < length ps"
  shows "(let p = ps ! i; p2 = ps ! j;
              skipped = ((imass p = 0 \<and> imass p2 = 0) \<or>
                         (ph p = SOLID \<and> ph p2 = SOLID \<and> bod p = bod p2 \<and> bod p \<noteq> - 1));
              overlap = (distance (part_ep p) (part_ep p2) < PARTICLE_DIAM cfg - EPSILON cfg);
              after = discover cfg xB yB ps cs
          in take (length (cs CONTACT)) (after CONTACT) = cs CONTACT
           \<and> take (length (cs STABILIZATION)) (after STABILIZATION) = cs STABILIZATION
           \<and> filter (on_pair i j) (drop (length (cs CONTACT)) (after CONTACT)) =
               (if skipped then []
                else if overlap then
                  (if ph p = SOLID \<and> ph p2 = SOLID then [RigidContactConstraint i j]
                   else if ph p = SOLID \<or> ph p2 = SOLID then [ContactConstraint i j]
                   else [])
                else [])
           \<and> filter (on_pair i j) (drop (length (cs STABILIZATION)) (after STABILIZATION)) =
               (if skipped then []
                else if overlap \<and> ph p = SOLID \<and> ph p2 = SOLID \<and> USE_STABILIZATION cfg
                  then [RigidContactConstraint i j]
                else []))"
  using assms
  by (simp add: discover_appends filter_discover_new pair_new_def spec_pair_CONTACT_def
        spec_pair_STABILIZATION_def spec_pair_overlap_def spec_pair_skipped_def Let_def)

theorem contact_discovery_pair_witness:
  "(0::nat) < 1 \<and> 1 < length [demo_particle 0 0 1 SOLID 0, demo_particle 0 0 1 SOLID 1]
   \<and> filter (on_pair 0 1)
        (discover demo_config (dvec (- 20) 20) (dvec (- 20) 20)
           [demo_particle 0 0 1 SOLID 0, demo_particle 0 0 1 SOLID 1] (\<lambda>_. []) CONTACT)
      = [RigidContactConstraint 0 1]
   \<and> filter (on_pair 0 1)
        (discover demo_config (dvec (- 20) 20) (dvec (- 20) 20)
           [demo_particle 0 0 1 SOLID 0, demo_particle 0 0 1 SOLID 1] (\<lambda>_. []) STABILIZATION)
      = [RigidContactConstraint 0 1]"
  using contact_discovery_pair [of 0 1 "[demo_particle 0 0 1 SOLID 0, demo_particle 0 0 1 SOLID 1]"
          demo_config "dvec (- 20) 20" "dvec (- 20) 20" "\<lambda>_. []"]
  by (simp add: Let_def demo_config_def demo_particle_def distance_def vlength_def vsub_def
        dvec_def)

section \<open>Loops in closed form\<close>

lemma fold_index: "fold (\<lambda>k. f (l ! k)) [0 ..< length l] a = fold f l a"
proof (induction l arbitrary: a rule: rev_induct)
  case Nil
  show ?case by simp
next
  case (snoc x xs)
  have "fold (\<lambda>k. f ((xs @ [x]) ! k)) [0 ..< length xs] a = fold (\<lambda>k. f (xs ! k)) [0 ..< length xs] a"
    by (rule fold_cong) (auto simp: nth_append)
  with snoc show ?case by simp
qed

lemma project_group_fold: "project_group cfg bs l ps = fold (project cfg bs) l ps"
  unfolding project_group_def by (simp add: fold_index)

lemma append_group_eq: "append_group g grp cs = cs(g := cs g @ grp)"
proof -
  have "fold (\<lambda>c cs'. append_to cs' g c) grp cs = cs(g := cs g @ grp)"
    by (induction grp arbitrary: cs) (auto simp: append_to_def)
  then show ?thesis
    unfolding append_group_def using fold_index [of "\<lambda>c cs'. append_to cs' g c" grp] by simp
qed

lemma for_each_particle_take:
  "n \<le> length ps \<Longrightarrow>
   fold (\<lambda>i ps'. ps'[i := f (ps' ! i)]) [0 ..< n] ps = map f (take n ps) @ drop n ps"
proof (induction n)
  case 0
  show ?case by simp
next
  case (Suc n)
  then have n: "n < length ps" by simp
  have "(map f (take n ps) @ drop n ps)[n := f ((map f (take n ps) @ drop n ps) ! n)] =
        map f (take (Suc n) ps) @ drop (Suc n) ps"
    using n by (simp add: nth_append list_update_append take_Suc_conv_app_nth
        Cons_nth_drop_Suc [symmetric])
  with Suc show ?case by simp
qed

lemma for_each_particle_map: "for_each_particle f ps = map f ps"
  unfolding for_each_particle_def by (simp add: for_each_particle_take)

lemma for_each_checked_from:
  "for_each_checked f [length pre ..< length pre + length xs] (pre @ xs) =
     (if \<forall>q \<in> set xs. f q \<noteq> None then Inr (pre @ map (\<lambda>q. the (f q)) xs) else Inl NotANumber)"
proof (induction xs arbitrary: pre)
  case Nil
  show ?case by simp
next
  case (Cons x xs)
  have range: "[length pre ..< length pre + length (x # xs)] =
      length pre # [length (pre @ [x]) ..< length (pre @ [x]) + length xs]"
    by (simp add: upt_rec)
  show ?case
  proof (cases "f x")
    case None
    then show ?thesis unfolding range by auto
  next
    case (Some q)
    have "for_each_checked f [length pre ..< length pre + length (x # xs)] (pre @ x # xs) =
          for_each_checked f [length (pre @ [q]) ..< length (pre @ [q]) + length xs] ((pre @ [q]) @ xs)"
      unfolding range using Some by simp
    also have "\<dots> = (if \<forall>q \<in> set xs. f q \<noteq> None then Inr ((pre @ [q]) @ map (\<lambda>q. the (f q)) xs)
                     else Inl NotANumber)"
      by (rule Cons.IH)
    finally show ?thesis using Some by simp
  qed
qed

lemma for_each_checked_all:
  "for_each_checked f [0 ..< length ps] ps =
     (if \<forall>q \<in> set ps. f q \<noteq> None then Inr (map (\<lambda>q. the (f q)) ps) else Inl NotANumber)"
  using for_each_checked_from [of f "[]" ps] by simp

lemma delete_group_eq: "delete_group g (cs, del) = (cs(g := []), del @ rev (cs g))"
proof -
  let ?F = "\<lambda>i st'. ((fst st')(g := removeAt (fst st' g) i), snd st' @ [fst st' g ! i])"
  have "\<And>cs del. cs g = l \<Longrightarrow>
      fold ?F (rev [0 ..< length l]) (cs, del) = (cs(g := []), del @ rev l)" for l :: "Constraint list"
  proof (induction l rule: rev_induct)
    case Nil
    then show ?case by auto
  next
    case (snoc x xs)
    have step: "?F (length xs) (cs, del) = (cs(g := xs), del @ [x])"
      using snoc.prems by (simp add: removeAt_def)
    have "fold ?F (rev [0 ..< length (xs @ [x])]) (cs, del) =
          fold ?F (rev [0 ..< length xs]) (?F (length xs) (cs, del))"
      by simp
    also have "\<dots> = ((cs(g := xs))(g := []), (del @ [x]) @ rev xs)"
      unfolding step by (rule snoc.IH) simp
    also have "\<dots> = (cs(g := []), del @ rev (xs @ [x]))"
      by simp
    finally show ?case .
  qed
  then show ?thesis unfolding delete_group_def by simp
qed

lemma delete_all_eq: "delete_all l = []"
proof -
  have "fold (\<lambda>i l'. removeAt l' i) (rev [0 ..< length l]) l = []"
    by (induction l rule: rev_induct) (simp_all add: removeAt_def)
  then show ?thesis unfolding delete_all_def .
qed

lemma repeat_funpow: "repeat n f x = (f ^^ n) x"
  by (induction n arbitrary: x) (simp_all add: funpow_swap1)

section \<open>The gathering loops\<close>

declare gather_globals.simps [simp del]

lemma hash_index_fst: "fst (hash_index h g) = hash_get h g"
  by (simp add: hash_index_def hash_get_def split: option.splits)

lemma hash_index_snd_get: "hash_get (snd (hash_index h g)) = hash_get h"
  by (rule ext) (simp add: hash_index_def hash_get_def split: option.splits)

lemma hash_index_snd_dom:
  "(\<exists>y. snd (hash_index h g) g' = Some y) \<longleftrightarrow> g' = g \<or> (\<exists>y. h g' = Some y)"
  by (auto simp: hash_index_def split: option.splits)

lemma hash_size_full_prefix:
  assumes "i \<le> length constraint_groups"
    and "\<forall>k<i. h (constraint_groups ! k) \<noteq> None"
    and "\<not> i < hash_size h"
  shows "\<forall>g \<in> set (drop i constraint_groups). h g = None"
proof -
  let ?P = "\<lambda>g. h g \<noteq> None"
  have "filter ?P (take i constraint_groups) = take i constraint_groups"
    using assms(1,2) by (auto simp: filter_id_conv in_set_conv_nth)
  then have "length (filter ?P (take i constraint_groups)) = i"
    using assms(1) by simp
  moreover have "hash_size h =
      length (filter ?P (take i constraint_groups)) + length (filter ?P (drop i constraint_groups))"
    unfolding hash_size_def
    by (metis append_take_drop_id filter_append length_append)
  ultimately have "length (filter ?P (drop i constraint_groups)) = 0"
    using assms(3) by simp
  then show ?thesis by (auto simp: filter_empty_conv)
qed

lemma gather_globals_closed:
  assumes "i \<le> length constraint_groups"
    and "\<forall>k<i. h (constraint_groups ! k) \<noteq> None"
  shows "hash_get (fst (gather_globals i h cs)) = hash_get h
       \<and> snd (gather_globals i h cs) =
           (\<lambda>g. cs g @ (if g \<in> set (drop i constraint_groups) then hash_get h g else []))"
  using assms
proof (induction i h cs rule: gather_globals.induct)
  case (1 i h cs)
  show ?case
  proof (cases "i < hash_size h")
    case False
    have "\<forall>g \<in> set (drop i constraint_groups). h g = None"
      using "1.prems" False by (rule hash_size_full_prefix)
    then have "\<And>g. g \<in> set (drop i constraint_groups) \<Longrightarrow> hash_get h g = []"
      by (simp add: hash_get_def)
    with False show ?thesis
      by (subst (1 2) gather_globals.simps) auto
  next
    case True
    let ?g = "constraint_groups ! i"
    let ?h1 = "snd (hash_index h ?g)"
    let ?cs1 = "append_group ?g (fst (hash_index h ?g)) cs"
    have "hash_size h \<le> length constraint_groups"
      unfolding hash_size_def by (rule length_filter_le)
    with True have i: "i < length constraint_groups" by simp
    have pre: "\<forall>k<i + 1. ?h1 (constraint_groups ! k) \<noteq> None"
      using "1.prems"(2) by (auto simp: hash_index_snd_dom less_Suc_eq)
    have IH: "hash_get (fst (gather_globals (i + 1) ?h1 ?cs1)) = hash_get ?h1
       \<and> snd (gather_globals (i + 1) ?h1 ?cs1) =
           (\<lambda>g. ?cs1 g @ (if g \<in> set (drop (i + 1) constraint_groups) then hash_get ?h1 g else []))"
      using "1.IH" [OF True] i pre by simp
    have unfold: "gather_globals i h cs = gather_globals (i + 1) ?h1 ?cs1"
      using True by (subst gather_globals.simps) simp
    have drop: "drop i constraint_groups = ?g # drop (i + 1) constraint_groups"
      using i by (simp add: Cons_nth_drop_Suc)
    have "distinct constraint_groups" by (simp add: constraint_groups_def)
    then have "distinct (drop i constraint_groups)" by simp
    then have notin: "?g \<notin> set (drop (i + 1) constraint_groups)"
      unfolding drop by simp
    show ?thesis
      unfolding unfold
      using IH notin
      by (auto simp: hash_index_snd_get hash_index_fst append_group_eq drop)
  qed
qed

lemma set_constraint_groups: "g \<in> set constraint_groups"
  by (cases g) (simp_all add: constraint_groups_def)

lemma gather_globals_all:
  "hash_get (fst (gather_globals 0 h cs)) = hash_get h
   \<and> snd (gather_globals 0 h cs) = (\<lambda>g. cs g @ hash_get h g)"
  using gather_globals_closed [of 0 h cs] by (simp add: set_constraint_groups)

section \<open>The phases of tick\<close>

lemma add_shape_closed:
  "add_shape b cs =
     (if holds_shape (shape b) then Inr (cs(SHAPE := cs SHAPE @ [the (shape b)]))
      else Inl (Exit1 not_shape_msg))"
  by (cases "shape b" rule: holds_shape.cases) (simp_all add: append_to_def)

lemma gather_shapes_closed:
  "gather_shapes bs cs =
     (if \<forall>b \<in> set bs. holds_shape (shape b)
      then Inr (cs(SHAPE := cs SHAPE @ map (\<lambda>b. the (shape b)) bs))
      else Inl (Exit1 not_shape_msg))"
proof (induction bs arbitrary: cs)
  case Nil
  show ?case by simp
next
  case (Cons b bs)
  show ?case
  proof (cases "holds_shape (shape b)")
    case False
    then show ?thesis by (simp add: add_shape_closed del: add_shape.simps)
  next
    case True
    then have "gather_shapes (b # bs) cs =
        gather_shapes bs (cs(SHAPE := cs SHAPE @ [the (shape b)]))"
      by (simp add: add_shape_closed del: add_shape.simps)
    also note Cons.IH
    finally show ?thesis using True by auto
  qed
qed

lemma discover_new_other:
  "g \<noteq> CONTACT \<Longrightarrow> g \<noteq> STABILIZATION \<Longrightarrow> discover_new cfg xB yB ps g = []"
  by (simp add: discover_new_def pair_new_def boundary_new_def boundary_contacts_def
      add_boundary_def append_to_apply Let_def)

lemma tick_gather_closed:
  "tick_gather s =
     (if \<forall>b \<in> set (m_bodies s). holds_shape (shape b)
      then Inr (gather_globals 0 (m_globalConstraints s)
                  ((\<lambda>_. [])(SHAPE := map (\<lambda>b. the (shape b)) (m_bodies s))))
      else Inl (Exit1 not_shape_msg))"
  by (simp add: tick_gather_def gather_shapes_closed)

lemma tick_gather_Inr:
  assumes "tick_gather s = Inr hc"
  shows "snd hc = gathered s" and "hash_get (fst hc) = hash_get (m_globalConstraints s)"
    and "\<forall>b \<in> set (m_bodies s). holds_shape (shape b)"
proof -
  let ?cs0 = "(\<lambda>_. [])(SHAPE := map (\<lambda>b. the (shape b)) (m_bodies s))"
  from assms show ok: "\<forall>b \<in> set (m_bodies s). holds_shape (shape b)"
    by (simp add: tick_gather_closed split: if_splits)
  with assms have hc: "hc = gather_globals 0 (m_globalConstraints s) ?cs0"
    by (simp add: tick_gather_closed)
  show "snd hc = gathered s"
    unfolding hc gathered_def
    using gather_globals_all [of "m_globalConstraints s" ?cs0] by (auto intro!: ext)
  show "hash_get (fst hc) = hash_get (m_globalConstraints s)"
    unfolding hc using gather_globals_all [of "m_globalConstraints s" ?cs0] by simp
qed

lemma tick_run_Inl:
  "tick_run cfg dt s = Inl e \<Longrightarrow> tick_gather s = Inl e \<or> e = NotANumber"
  by (auto simp: tick_run_def tick_finish_def recover_def for_each_checked_all Let_def
      split: sum.splits if_splits)

lemma teardown_closed:
  "teardown cs =
     (cs(CONTACT := [], STABILIZATION := []), rev (cs CONTACT) @ rev (cs STABILIZATION))"
  by (simp add: teardown_def delete_group_eq)

lemma recover_closed:
  "dt \<noteq> 0 \<Longrightarrow>
   recover cfg dt ps = Inr (map (\<lambda>q. the (recover_step cfg dt q)) ps)"
  by (simp add: recover_def for_each_checked_all recover_step_def vdiv_def)

lemma solve_groups_closed:
  "solve_groups cfg bs cs ps = fold (project cfg bs) (cs CONTACT @ cs STANDARD @ cs SHAPE) ps"
  by (simp add: solve_groups_def NUM_CONSTRAINT_GROUPS_def constraint_groups_def
      project_group_fold)

lemma fold_concat_replicate: "fold f (concat (replicate n l)) x = ((fold f l) ^^ n) x"
  by (induction n arbitrary: x) (simp_all add: funpow_swap1)

text \<open>
  C8. At the start of tick the shape slot of every body is checked: the shape
  constraints are appended to SHAPE in the order of the bodies when every slot holds a
  TotalShapeConstraint, and the program exits with the diagnostic otherwise; tick exits
  with this diagnostic exactly when some body's slot does not hold a shape constraint,
  and when it returns, the SHAPE list of the per-tick map starts with the shape
  constraints of the bodies.
\<close>

theorem shape_slots_checked:
  "gather_shapes bs cs =
     (if \<forall>b \<in> set bs. holds_shape (shape b)
      then Inr (cs(SHAPE := cs SHAPE @ map (\<lambda>b. the (shape b)) bs))
      else Inl (Exit1 not_shape_msg))
   \<and> (tick_run cfg dt s = Inl (Exit1 not_shape_msg)
        \<longleftrightarrow> (\<exists>b \<in> set (m_bodies s). \<not> holds_shape (shape b)))
   \<and> (\<forall>r. tick_run cfg dt s = Inr r \<longrightarrow>
         take (length (m_bodies s)) (constraints r SHAPE) =
           map (\<lambda>b. the (shape b)) (m_bodies s))"
proof (intro conjI allI impI)
  show "gather_shapes bs cs =
     (if \<forall>b \<in> set bs. holds_shape (shape b)
      then Inr (cs(SHAPE := cs SHAPE @ map (\<lambda>b. the (shape b)) bs))
      else Inl (Exit1 not_shape_msg))"
    by (rule gather_shapes_closed)
next
  show "tick_run cfg dt s = Inl (Exit1 not_shape_msg)
        \<longleftrightarrow> (\<exists>b \<in> set (m_bodies s). \<not> holds_shape (shape b))"
  proof
    assume "tick_run cfg dt s = Inl (Exit1 not_shape_msg)"
    then have "tick_gather s = Inl (Exit1 not_shape_msg)"
      using tick_run_Inl by fastforce
    then show "\<exists>b \<in> set (m_bodies s). \<not> holds_shape (shape b)"
      by (simp add: tick_gather_closed split: if_splits)
  next
    assume "\<exists>b \<in> set (m_bodies s). \<not> holds_shape (shape b)"
    then have "tick_gather s = Inl (Exit1 not_shape_msg)"
      by (auto simp: tick_gather_closed)
    then show "tick_run cfg dt s = Inl (Exit1 not_shape_msg)"
      by (simp add: tick_run_def)
  qed
next
  fix r
  assume r: "tick_run cfg dt s = Inr r"
  then obtain hc where hc: "tick_gather s = Inr hc"
    by (auto simp: tick_run_def split: sum.splits)
  from r hc have "constraints r SHAPE = gathered s SHAPE"
    by (auto simp: tick_run_def tick_finish_def Let_def teardown_closed tick_discover_def
        discover_appends tick_gather_Inr(1) discover_new_other split: sum.splits)
  then show "take (length (m_bodies s)) (constraints r SHAPE) =
           map (\<lambda>b. the (shape b)) (m_bodies s)"
    by (simp add: gathered_def)
qed

lemma tick_run_closed:
  assumes "\<forall>b \<in> set (m_bodies s). holds_shape (shape b)" and "dt \<noteq> 0"
  shows "tick_run cfg dt s =
     Inr \<lparr>sim = s\<lparr>m_particles := map (\<lambda>q. the (recover_step cfg dt q))
                                     (snd (snd (tick_solved cfg dt s))),
                  m_globalConstraints :=
                    fst (gather_globals 0 (m_globalConstraints s)
                           ((\<lambda>_. [])(SHAPE := map (\<lambda>b. the (shape b)) (m_bodies s)))),
                  m_standardSolver := fst (tick_solved cfg dt s),
                  m_contactSolver := fst (snd (tick_solved cfg dt s))\<rparr>,
          constraints = (tick_contacts cfg dt s)(CONTACT := [], STABILIZATION := []),
          deleted = rev (tick_contacts cfg dt s CONTACT)
                    @ rev (tick_contacts cfg dt s STABILIZATION)\<rparr>"
proof -
  let ?hc = "gather_globals 0 (m_globalConstraints s)
               ((\<lambda>_. [])(SHAPE := map (\<lambda>b. the (shape b)) (m_bodies s)))"
  have g: "tick_gather s = Inr ?hc"
    using assms(1) by (simp add: tick_gather_closed)
  have "snd ?hc = gathered s"
    using tick_gather_Inr(1) [OF g] .
  then show ?thesis
    using assms(2)
    by (simp add: tick_run_def g tick_finish_def Let_def recover_closed teardown_closed
        tick_solved_def tick_contacts_def)
qed

theorem shape_slots_checked_witness:
  "gather_shapes [demo_body (Some (TotalShapeConstraint 0))] (\<lambda>_. []) =
     Inr ((\<lambda>_. [])(SHAPE := [TotalShapeConstraint 0]))
   \<and> tick_run demo_config 1 (demo_sim [] [demo_body None]) = Inl (Exit1 not_shape_msg)
   \<and> tick_run demo_config 1 (demo_sim [] [demo_body (Some (ContactConstraint 0 1))]) =
       Inl (Exit1 not_shape_msg)
   \<and> (\<exists>r. tick_run demo_config 1 (demo_sim [] [demo_body (Some (TotalShapeConstraint 0))]) = Inr r
          \<and> take 1 (constraints r SHAPE) = [TotalShapeConstraint 0])"
proof -
  let ?good = "demo_sim [] [demo_body (Some (TotalShapeConstraint 0))]"
  have "\<exists>r. tick_run demo_config 1 ?good = Inr r"
    using tick_run_closed [of ?good 1 demo_config]
    by (simp add: demo_body_def demo_sim_def new_Body_def)
  then obtain r where r: "tick_run demo_config 1 ?good = Inr r" ..
  with shape_slots_checked [of "[]" "\<lambda>_. []" demo_config 1 ?good]
  have "take 1 (constraints r SHAPE) = [TotalShapeConstraint 0]"
    by (simp add: demo_body_def demo_sim_def new_Body_def)
  with r show ?thesis
    using shape_slots_checked [of "[demo_body (Some (TotalShapeConstraint 0))]" "\<lambda>_. []"
          demo_config 1 "demo_sim [] [demo_body None]"]
        shape_slots_checked [of "[]" "\<lambda>_. []"
          demo_config 1 "demo_sim [] [demo_body (Some (ContactConstraint 0 1))]"]
    by (simp add: demo_body_def demo_sim_def new_Body_def)
qed

lemma tick_contacts_closed:
  "tick_contacts cfg dt s =
     (\<lambda>g. gathered s g @
          discover_new cfg (m_xBoundaries s) (m_yBoundaries s) (tick_forces cfg dt s) g)"
  by (simp add: tick_contacts_def tick_discover_def discover_appends)

lemma tick_run_Inr:
  assumes "tick_run cfg dt s = Inr r"
  shows "constraints r = (tick_contacts cfg dt s)(CONTACT := [], STABILIZATION := [])"
    and "deleted r = rev (tick_contacts cfg dt s CONTACT)
                     @ rev (tick_contacts cfg dt s STABILIZATION)"
    and "hash_get (m_globalConstraints (sim r)) = hash_get (m_globalConstraints s)"
    and "m_bodies (sim r) = m_bodies s"
proof -
  from assms obtain hc where hc: "tick_gather s = Inr hc"
    by (auto simp: tick_run_def split: sum.splits)
  note g = tick_gather_Inr [OF hc]
  from assms hc obtain ps4 where
    r: "r = \<lparr>sim = s\<lparr>m_particles := ps4, m_globalConstraints := fst hc,
                     m_standardSolver := fst (tick_solved cfg dt s),
                     m_contactSolver := fst (snd (tick_solved cfg dt s))\<rparr>,
             constraints = fst (teardown (tick_contacts cfg dt s)),
             deleted = snd (teardown (tick_contacts cfg dt s))\<rparr>"
    by (auto simp: tick_run_def tick_finish_def Let_def g(1) tick_solved_def tick_contacts_def
        split: sum.splits)
  show "constraints r = (tick_contacts cfg dt s)(CONTACT := [], STABILIZATION := [])"
    by (simp add: r teardown_closed)
  show "deleted r = rev (tick_contacts cfg dt s CONTACT)
                     @ rev (tick_contacts cfg dt s STABILIZATION)"
    by (simp add: r teardown_closed)
  show "hash_get (m_globalConstraints (sim r)) = hash_get (m_globalConstraints s)"
    by (simp add: r g(2))
  show "m_bodies (sim r) = m_bodies s"
    by (simp add: r)
qed

text \<open>
  C9. The teardown loops of tick empty the CONTACT and the STABILIZATION list of the
  per-tick map, delete every constraint of the two lists and leave the other groups as
  they are. When tick returns, the per-tick map holds no CONTACT and no STABILIZATION
  constraint; the deleted objects are the whole CONTACT list and the whole
  STABILIZATION list, each from its last element to its first, and these lists end with
  the constraints that contact discovery has created in this tick; the SHAPE and
  STANDARD lists of the map are as gathered, and the global constraints of the
  simulation and its bodies (with their shape constraints) are as before the tick. The
  only exit of the program inside tick is in the gathering phase, before any constraint
  is created.
\<close>

theorem tick_teardown:
  "teardown cs =
     (cs(CONTACT := [], STABILIZATION := []), rev (cs CONTACT) @ rev (cs STABILIZATION))
   \<and> (\<forall>r. tick_run cfg dt s = Inr r \<longrightarrow>
      constraints r CONTACT = [] \<and> constraints r STABILIZATION = []
    \<and> deleted r =
        rev (gathered s CONTACT
             @ discover_new cfg (m_xBoundaries s) (m_yBoundaries s) (tick_forces cfg dt s) CONTACT)
        @ rev (gathered s STABILIZATION
             @ discover_new cfg (m_xBoundaries s) (m_yBoundaries s) (tick_forces cfg dt s)
                 STABILIZATION)
    \<and> constraints r SHAPE = gathered s SHAPE
    \<and> constraints r STANDARD = gathered s STANDARD
    \<and> hash_get (m_globalConstraints (sim r)) = hash_get (m_globalConstraints s)
    \<and> m_bodies (sim r) = m_bodies s)
   \<and> (\<forall>msg. tick_run cfg dt s = Inl (Exit1 msg) \<longrightarrow> tick_gather s = Inl (Exit1 msg))"
proof (intro conjI allI impI)
  show "teardown cs =
     (cs(CONTACT := [], STABILIZATION := []), rev (cs CONTACT) @ rev (cs STABILIZATION))"
    by (rule teardown_closed)
next
  fix msg
  assume "tick_run cfg dt s = Inl (Exit1 msg)"
  then show "tick_gather s = Inl (Exit1 msg)"
    using tick_run_Inl by fastforce
next
  fix r
  assume r: "tick_run cfg dt s = Inr r"
  note R = tick_run_Inr [OF r]
  show "constraints r CONTACT = []" by (simp add: R(1))
  show "constraints r STABILIZATION = []" by (simp add: R(1))
  show "deleted r =
        rev (gathered s CONTACT
             @ discover_new cfg (m_xBoundaries s) (m_yBoundaries s) (tick_forces cfg dt s) CONTACT)
        @ rev (gathered s STABILIZATION
             @ discover_new cfg (m_xBoundaries s) (m_yBoundaries s) (tick_forces cfg dt s)
                 STABILIZATION)"
    by (simp add: R(2) tick_contacts_closed)
  show "constraints r SHAPE = gathered s SHAPE"
    by (simp add: R(1) tick_contacts_closed discover_new_other)
  show "constraints r STANDARD = gathered s STANDARD"
    by (simp add: R(1) tick_contacts_closed discover_new_other)
  show "hash_get (m_globalConstraints (sim r)) = hash_get (m_globalConstraints s)"
    by (rule R(3))
  show "m_bodies (sim r) = m_bodies s"
    by (rule R(4))
qed

theorem tick_teardown_witness:
  "\<exists>r. tick_run demo_config 1
         (demo_sim [demo_particle 0 10 1 SOLID (- 1), demo_particle 0 10 1 SOLID (- 1)] []) = Inr r
       \<and> constraints r CONTACT = [] \<and> constraints r STABILIZATION = []
       \<and> deleted r =
           [BoundaryConstraint 1 0 False True False, BoundaryConstraint 0 0 False True False,
            RigidContactConstraint 0 1,
            BoundaryConstraint 1 0 False True True, BoundaryConstraint 0 0 False True True,
            RigidContactConstraint 0 1]"
proof -
  let ?s = "demo_sim [demo_particle 0 10 1 SOLID (- 1), demo_particle 0 10 1 SOLID (- 1)] []"
  have "\<exists>r. tick_run demo_config 1 ?s = Inr r"
    using tick_run_closed [of ?s 1 demo_config] by (simp add: demo_sim_def)
  then obtain r where r: "tick_run demo_config 1 ?s = Inr r" ..
  have forces: "tick_forces demo_config 1 ?s =
      [(demo_particle 0 10 1 SOLID (- 1))\<lparr>part_v := dvec 0 (- (98 / 10)), part_ep := dvec 0 (2 / 10)\<rparr>,
       (demo_particle 0 10 1 SOLID (- 1))\<lparr>part_v := dvec 0 (- (98 / 10)), part_ep := dvec 0 (2 / 10)\<rparr>]"
    by (simp add: tick_forces_def for_each_particle_map force_step_def demo_sim_def
        demo_particle_def demo_config_def guess_def scaleMass_def vadd_def smul_def dvec_def
        Let_def)
  from tick_teardown [of "\<lambda>_. []" demo_config 1 ?s] r
  have "constraints r CONTACT = [] \<and> constraints r STABILIZATION = []
    \<and> deleted r =
        rev (gathered ?s CONTACT
             @ discover_new demo_config (m_xBoundaries ?s) (m_yBoundaries ?s)
                 (tick_forces demo_config 1 ?s) CONTACT)
        @ rev (gathered ?s STABILIZATION
             @ discover_new demo_config (m_xBoundaries ?s) (m_yBoundaries ?s)
                 (tick_forces demo_config 1 ?s) STABILIZATION)"
    by simp
  then show ?thesis
    using r unfolding forces
    by (simp add: gathered_def hash_get_def demo_sim_def discover_new_def pair_new_def
        spec_pair_CONTACT_def spec_pair_STABILIZATION_def spec_pair_overlap_def
        spec_pair_skipped_def boundary_new_def boundary_contacts_def add_boundary_def
        append_to_apply demo_particle_def demo_config_def distance_def vlength_def vsub_def
        dvec_def Let_def)
qed

section \<open>The solver pass, velocity recovery and the force phase\<close>

lemma solve_iterative_closed:
  "ITERATIVE cfg \<Longrightarrow>
   solve cfg bs cs st =
     (fst st, fst (snd st),
      fold (project cfg bs)
        (concat (replicate (SOLVER_ITERATIONS cfg) (cs CONTACT @ cs STANDARD @ cs SHAPE)))
        (snd (snd st)))"
proof -
  have "solve_groups cfg bs cs = fold (project cfg bs) (cs CONTACT @ cs STANDARD @ cs SHAPE)"
    by (rule ext) (rule solve_groups_closed)
  then show "ITERATIVE cfg \<Longrightarrow> ?thesis"
    by (simp add: solve_def repeat_funpow fold_concat_replicate)
qed

text \<open>
  C5. In the iterative build the main solver pass of tick leaves the two solvers as
  they are and projects, on the particles that stabilization has left, the sequence of
  constraints that consists of SOLVER_ITERATIONS copies of the CONTACT list followed by
  the STANDARD list followed by the SHAPE list; no STABILIZATION constraint is
  projected, and every projection works on the particles that the projection before it
  has returned.
\<close>

theorem iterative_solver_order:
  assumes "ITERATIVE cfg"
  shows "solve cfg bs cs (ssol, csol, ps) =
           (ssol, csol,
            fold (project cfg bs)
              (concat (replicate (SOLVER_ITERATIONS cfg) (cs CONTACT @ cs STANDARD @ cs SHAPE)))
              ps)
       \<and> snd (snd (tick_solve cfg s ps1 cs)) =
           fold (project cfg (m_bodies s))
             (concat (replicate (SOLVER_ITERATIONS cfg) (cs CONTACT @ cs STANDARD @ cs SHAPE)))
             (snd (stabilize cfg (m_bodies s) (cs STABILIZATION)
                     (setupSizes cfg (setupM cfg (m_contactSolver s) ps1 True) (length ps1)
                        (cs STABILIZATION), ps1)))"
  using assms by (simp add: solve_iterative_closed tick_solve_def Let_def)

theorem iterative_solver_order_witness:
  "ITERATIVE marker_config
   \<and> solve marker_config []
       ((\<lambda>_. [])(CONTACT := [ContactConstraint 0 1], STANDARD := [DistanceConstraint 0 1],
                  SHAPE := [TotalShapeConstraint 0], STABILIZATION := [ContactConstraint 5 6]))
       ((), (), [])
     = ((), (), map (\<lambda>m. demo_particle 0 0 m SOLID 0) [1, 2, 3, 1, 2, 3])"
  using iterative_solver_order [of marker_config "[]"
       "(\<lambda>_. [])(CONTACT := [ContactConstraint 0 1], STANDARD := [DistanceConstraint 0 1],
                  SHAPE := [TotalShapeConstraint 0], STABILIZATION := [ContactConstraint 5 6])"
       "()" "()" "[]"]
  by (simp add: marker_config_def demo_config_def numeral_2_eq_2)

lemma fold_skip: "fold (\<lambda>c ps. ps) l ps = ps"
  by (induction l) simp_all

lemma recover_step_Some:
  "dt \<noteq> 0 \<Longrightarrow>
   the (recover_step cfg dt q) =
     confirmGuess cfg (q\<lparr>part_v := dvec ((vec_x (part_ep q) - vec_x (part_p q)) / dt)
                                      ((vec_y (part_ep q) - vec_y (part_p q)) / dt)\<rparr>)"
  by (simp add: recover_step_def vdiv_def vsub_def dvec_def)

text \<open>
  C6. For \<open>dt > 0\<close> the velocity recovery of tick divides by a nonzero number and sets,
  for every particle, \<open>v\<close> to \<open>(ep - p) / dt\<close> and then calls confirmGuess; a tick whose
  gathering phase has passed returns, its particles are those that the solver passes
  have left, each recovered in this way, and the teardown acts on the map that the
  solver passes have used.
\<close>

theorem velocity_recovery:
  assumes "0 < dt"
  shows "recover cfg dt ps =
           Inr (map (\<lambda>q. confirmGuess cfg
                  (q\<lparr>part_v := dvec ((vec_x (part_ep q) - vec_x (part_p q)) / dt)
                                     ((vec_y (part_ep q) - vec_y (part_p q)) / dt)\<rparr>)) ps)
       \<and> ((\<forall>b \<in> set (m_bodies s). holds_shape (shape b)) \<longrightarrow>
            (\<exists>r. tick_run cfg dt s = Inr r
               \<and> m_particles (sim r) =
                   map (\<lambda>q. confirmGuess cfg
                      (q\<lparr>part_v := dvec ((vec_x (part_ep q) - vec_x (part_p q)) / dt)
                                         ((vec_y (part_ep q) - vec_y (part_p q)) / dt)\<rparr>))
                     (snd (snd (tick_solved cfg dt s)))
               \<and> (constraints r, deleted r) = teardown (tick_contacts cfg dt s)))"
proof (intro conjI impI)
  from assms have dt: "dt \<noteq> 0" by simp
  show "recover cfg dt ps =
           Inr (map (\<lambda>q. confirmGuess cfg
                  (q\<lparr>part_v := dvec ((vec_x (part_ep q) - vec_x (part_p q)) / dt)
                                     ((vec_y (part_ep q) - vec_y (part_p q)) / dt)\<rparr>)) ps)"
    using dt by (simp add: recover_closed recover_step_Some)
  assume "\<forall>b \<in> set (m_bodies s). holds_shape (shape b)"
  from tick_run_closed [OF this dt, of cfg]
  show "\<exists>r. tick_run cfg dt s = Inr r
               \<and> m_particles (sim r) =
                   map (\<lambda>q. confirmGuess cfg
                      (q\<lparr>part_v := dvec ((vec_x (part_ep q) - vec_x (part_p q)) / dt)
                                         ((vec_y (part_ep q) - vec_y (part_p q)) / dt)\<rparr>))
                     (snd (snd (tick_solved cfg dt s)))
               \<and> (constraints r, deleted r) = teardown (tick_contacts cfg dt s)"
    using dt by (simp add: recover_step_Some teardown_closed)
qed

theorem velocity_recovery_witness:
  "(0::real) < 2
   \<and> recover demo_config 2 [(demo_particle 0 0 1 FLUID 0)\<lparr>part_ep := dvec 4 6\<rparr>] =
       Inr [(demo_particle 0 0 1 FLUID 0)\<lparr>part_ep := dvec 4 6, part_p := dvec 4 6,
                                          part_v := dvec 2 3\<rparr>]
   \<and> (\<exists>r. tick_run demo_config 2 (demo_sim [] []) = Inr r \<and> m_particles (sim r) = [])"
proof -
  have pos: "(0::real) < 2" by simp
  have ok: "\<forall>b \<in> set (m_bodies (demo_sim [] [])). holds_shape (shape b)"
    by (simp add: demo_sim_def)
  have solved: "snd (snd (tick_solved demo_config 2 (demo_sim [] []))) = []"
    by (simp add: tick_solved_def tick_solve_def tick_forces_def for_each_particle_map
        demo_sim_def solve_iterative_closed demo_config_def stabilize_def Let_def
        numeral_2_eq_2 project_group_fold fold_skip)
  have len: "vlength (dvec 4 6) \<ge> 1"
  proof -
    have "sqrt (4 * 4 + 6 * 6) \<ge> sqrt 1"
      by (subst real_sqrt_le_iff) simp
    then show ?thesis by (simp add: vlength_def dvec_def)
  qed
  let ?P = "(demo_particle 0 0 1 FLUID 0)\<lparr>part_ep := dvec 4 6\<rparr>"
  let ?F = "\<lambda>q. confirmGuess demo_config
                  (q\<lparr>part_v := dvec ((vec_x (part_ep q) - vec_x (part_p q)) / 2)
                                     ((vec_y (part_ep q) - vec_y (part_p q)) / 2)\<rparr>)"
  note vr = velocity_recovery [OF pos, of demo_config "[?P]" "demo_sim [] []"]
  from vr have A: "recover demo_config 2 [?P] = Inr (map ?F [?P])"
    by (rule conjunct1)
  from vr ok have "\<exists>r. tick_run demo_config 2 (demo_sim [] []) = Inr r
      \<and> m_particles (sim r) = map ?F (snd (snd (tick_solved demo_config 2 (demo_sim [] []))))"
    by blast
  then have B: "\<exists>r. tick_run demo_config 2 (demo_sim [] []) = Inr r \<and> m_particles (sim r) = []"
    unfolding solved by simp
  have C: "map ?F [?P] = [(demo_particle 0 0 1 FLUID 0)\<lparr>part_ep := dvec 4 6, part_p := dvec 4 6,
                                          part_v := dvec 2 3\<rparr>]"
    using len
    by (simp add: confirmGuess_def demo_particle_def demo_config_def vsub_def dvec_def)
  show ?thesis
    using pos A B unfolding C by blast
qed

lemma force_step_closed:
  "force_step cfg dt gravity q =
     (let g = (if ph q = GAS then smul (ALPHA cfg) gravity else gravity);
          v1 = vadd (part_v q) (smul dt g);
          q1 = q\<lparr>part_v := v1, part_ep := vadd (part_p q) (smul dt v1)\<rparr>
      in q1\<lparr>sm := scalePolicy cfg q1\<rparr>)"
  by (simp add: force_step_def guess_def scaleMass_def Let_def)

text \<open>
  C4. The force-and-prediction phase of tick rewrites every particle in three steps:
  \<open>v\<close> becomes \<open>v + dt * g\<close>, where \<open>g\<close> is the gravity scaled by ALPHA exactly when the
  phase is GAS and the gravity otherwise; then \<open>ep\<close> becomes \<open>guess(dt) = p + dt * v\<close>
  with the new \<open>v\<close>; then scaleMass computes \<open>sm\<close> from the particle with the new \<open>v\<close> and
  \<open>ep\<close>. Contact discovery and everything after it work on the list in which every
  particle has been rewritten.
\<close>

theorem force_and_prediction:
  "tick_forces cfg dt s =
     map (\<lambda>q. let g = (if ph q = GAS then smul (ALPHA cfg) (m_gravity s) else m_gravity s);
                  v1 = vadd (part_v q) (smul dt g);
                  q1 = q\<lparr>part_v := v1, part_ep := vadd (part_p q) (smul dt v1)\<rparr>
              in q1\<lparr>sm := scalePolicy cfg q1\<rparr>) (m_particles s)
   \<and> (\<forall>q. guess dt q = vadd (part_p q) (smul dt (part_v q)))
   \<and> (\<forall>hc. tick_gather s = Inr hc \<longrightarrow>
        tick_run cfg dt s =
          tick_finish cfg dt s (fst hc)
            (discover cfg (m_xBoundaries s) (m_yBoundaries s) (tick_forces cfg dt s) (snd hc))
            (tick_solve cfg s (tick_forces cfg dt s)
               (discover cfg (m_xBoundaries s) (m_yBoundaries s) (tick_forces cfg dt s)
                  (snd hc))))"
  by (simp add: tick_forces_def for_each_particle_map force_step_closed tick_run_def
      tick_discover_def Let_def guess_def)

theorem force_and_prediction_witness:
  "tick_forces (demo_config\<lparr>scalePolicy := (\<lambda>q. vec_y (part_ep q))\<rparr>) 2
     (demo_sim [demo_particle 0 10 1 GAS 0, demo_particle 0 10 1 FLUID 0] []) =
     [(demo_particle 0 10 1 GAS 0)\<lparr>part_v := dvec 0 (- (98 / 10)),
         part_ep := dvec 0 (- (96 / 10)), sm := - (96 / 10)\<rparr>,
      (demo_particle 0 10 1 FLUID 0)\<lparr>part_v := dvec 0 (- (196 / 10)),
         part_ep := dvec 0 (- (292 / 10)), sm := - (292 / 10)\<rparr>]
   \<and> (\<exists>hc. tick_gather (demo_sim [] []) = Inr hc
         \<and> tick_run demo_config 2 (demo_sim [] []) =
             tick_finish demo_config 2 (demo_sim [] []) (fst hc) (snd hc)
               (tick_solve demo_config (demo_sim [] []) [] (snd hc)))"
proof -
  have "\<exists>hc. tick_gather (demo_sim [] []) = Inr hc"
    by (simp add: tick_gather_closed demo_sim_def)
  then obtain hc where hc: "tick_gather (demo_sim [] []) = Inr hc" ..
  have f0: "tick_forces demo_config 2 (demo_sim [] []) = []"
    by (simp add: tick_forces_def for_each_particle_map demo_sim_def)
  have d0: "discover demo_config (m_xBoundaries (demo_sim [] [])) (m_yBoundaries (demo_sim [] []))
      [] (snd hc) = snd hc"
    by (simp add: discover_def)
  from force_and_prediction [of demo_config 2 "demo_sim [] []"] hc
  have "tick_run demo_config 2 (demo_sim [] []) =
             tick_finish demo_config 2 (demo_sim [] []) (fst hc) (snd hc)
               (tick_solve demo_config (demo_sim [] []) [] (snd hc))"
    by (simp add: f0 d0)
  with hc show ?thesis
    using force_and_prediction [of "demo_config\<lparr>scalePolicy := (\<lambda>q. vec_y (part_ep q))\<rparr>" 2
        "demo_sim [demo_particle 0 10 1 GAS 0, demo_particle 0 10 1 FLUID 0] []"]
    by (simp add: demo_sim_def demo_particle_def demo_config_def vadd_def smul_def dvec_def
        Let_def)
qed

section \<open>Properties of mousePressed\<close>

lemma dvec2_eq_iff: "(a :: dvec2) = b \<longleftrightarrow> vec_x a = vec_x b \<and> vec_y a = vec_y b"
  by (cases a, cases b) simp

lemma vlength_zero_iff: "vlength a = 0 \<longleftrightarrow> vec_x a = 0 \<and> vec_y a = 0"
  by (simp add: vlength_def sum_squares_eq_zero_iff)

lemma vlength_vsub_zero_iff: "vlength (vsub a b) = 0 \<longleftrightarrow> a = b"
  by (simp add: vlength_zero_iff vsub_def dvec_def dvec2_eq_iff)

lemma vlength_smul: "vlength (smul k a) = \<bar>k\<bar> * vlength a"
proof -
  have "k * vec_x a * (k * vec_x a) + k * vec_y a * (k * vec_y a) =
        (k * k) * (vec_x a * vec_x a + vec_y a * vec_y a)"
    by (simp add: algebra_simps)
  then show ?thesis
    by (simp add: vlength_def smul_def dvec_def real_sqrt_mult)
qed

lemma vsub_vadd_cancel: "vsub (vadd a b) a = b"
  by (simp add: vsub_def vadd_def dvec_def dvec2_eq_iff)

lemma smul_smul: "smul k (smul m a) = smul (k * m) a"
  by (simp add: smul_def dvec_def)

lemma press_step_closed:
  "press_step pt q =
     (if part_p q = pt then None
      else Some (q\<lparr>part_v := vadd (part_v q)
                    (smul (7 / distance pt (part_p q)) (vsub pt (part_p q)))\<rparr>))"
  by (auto simp: press_step_def normalize_vec_def vlength_vsub_zero_iff smul_smul distance_def)

lemma press_fold:
  "fold (press_particle pt) [length pre ..< length pre + length xs] (pre @ xs, nans) =
     (pre @ map (\<lambda>q. if part_p q = pt then q
                       else q\<lparr>part_v := vadd (part_v q)
                              (smul (7 / distance pt (part_p q)) (vsub pt (part_p q)))\<rparr>) xs,
      nans @ filter (\<lambda>i. part_p ((pre @ xs) ! i) = pt) [length pre ..< length pre + length xs])"
proof (induction xs arbitrary: pre nans)
  case Nil
  show ?case by simp
next
  case (Cons x xs)
  let ?F = "\<lambda>q. if part_p q = pt then q
                       else q\<lparr>part_v := vadd (part_v q)
                              (smul (7 / distance pt (part_p q)) (vsub pt (part_p q)))\<rparr>"
  let ?n1 = "if part_p x = pt then nans @ [length pre] else nans"
  have range: "[length pre ..< length pre + length (x # xs)] =
      length pre # [length (pre @ [?F x]) ..< length (pre @ [?F x]) + length xs]"
    by (simp add: upt_rec)
  have step: "press_particle pt (length pre) (pre @ x # xs, nans) = ((pre @ [?F x]) @ xs, ?n1)"
    by (simp add: press_particle_def press_step_closed)
  have same: "filter (\<lambda>i. part_p (((pre @ [?F x]) @ xs) ! i) = pt)
        [length (pre @ [?F x]) ..< length (pre @ [?F x]) + length xs] =
      filter (\<lambda>i. part_p ((pre @ x # xs) ! i) = pt)
        [length (pre @ [?F x]) ..< length (pre @ [?F x]) + length xs]"
  proof (rule filter_cong [OF refl])
    fix i
    assume "i \<in> set [length (pre @ [?F x]) ..< length (pre @ [?F x]) + length xs]"
    then have "length pre < i" by (simp del: upt_Suc)
    then show "(part_p (((pre @ [?F x]) @ xs) ! i) = pt) = (part_p ((pre @ x # xs) ! i) = pt)"
      by (simp add: nth_append nth_Cons')
  qed
  have "fold (press_particle pt) [length pre ..< length pre + length (x # xs)] (pre @ x # xs, nans) =
        fold (press_particle pt) [length (pre @ [?F x]) ..< length (pre @ [?F x]) + length xs]
          ((pre @ [?F x]) @ xs, ?n1)"
    unfolding range by (simp only: fold_Cons comp_apply step)
  also have "\<dots> = ((pre @ [?F x]) @ map ?F xs,
      ?n1 @ filter (\<lambda>i. part_p (((pre @ [?F x]) @ xs) ! i) = pt)
        [length (pre @ [?F x]) ..< length (pre @ [?F x]) + length xs])"
    by (rule Cons.IH)
  also have "\<dots> = (pre @ map ?F (x # xs),
      nans @ filter (\<lambda>i. part_p ((pre @ x # xs) ! i) = pt)
        [length pre ..< length pre + length (x # xs)])"
    unfolding same range by simp
  finally show ?case .
qed

lemma mousePressed_closed:
  "mousePressed pt s =
     (s\<lparr>m_particles :=
          map (\<lambda>q. if part_p q = pt then q
                   else q\<lparr>part_v := vadd (part_v q)
                          (smul (7 / distance pt (part_p q)) (vsub pt (part_p q)))\<rparr>)
            (m_particles s),
        m_point := pt\<rparr>,
      filter (\<lambda>i. part_p (m_particles s ! i) = pt) [0 ..< length (m_particles s)])"
  using press_fold [of pt "[]" "m_particles s" "[]"]
  by (simp add: mousePressed_def Let_def)

text \<open>
  C3, as the code has it. mousePressed records \<open>pt\<close> in \<open>m_point\<close> and visits every
  particle. To the velocity of every particle that does not lie on \<open>pt\<close> it adds a vector
  of length 7 that is a positive multiple of \<open>pt - p\<close>: the impulse points from the
  particle toward the point, not away from it, and nothing else of the particle changes.
  The particles that lie on \<open>pt\<close> are exactly those whose velocity is not a number
  afterwards; they do not keep the other particles from being pushed. Nothing else of
  the simulation changes.
\<close>

theorem mousePressed_impulse:
  "m_point (fst (mousePressed pt s)) = pt
   \<and> length (m_particles (fst (mousePressed pt s))) = length (m_particles s)
   \<and> fst (mousePressed pt s) =
       s\<lparr>m_particles := m_particles (fst (mousePressed pt s)), m_point := pt\<rparr>
   \<and> snd (mousePressed pt s) =
       filter (\<lambda>i. part_p (m_particles s ! i) = pt) [0 ..< length (m_particles s)]
   \<and> (\<forall>i < length (m_particles s). part_p (m_particles s ! i) \<noteq> pt \<longrightarrow>
          vlength (vsub (part_v (m_particles (fst (mousePressed pt s)) ! i))
                        (part_v (m_particles s ! i))) = 7
        \<and> 0 < 7 / distance pt (part_p (m_particles s ! i))
        \<and> vsub (part_v (m_particles (fst (mousePressed pt s)) ! i)) (part_v (m_particles s ! i)) =
            smul (7 / distance pt (part_p (m_particles s ! i)))
              (vsub pt (part_p (m_particles s ! i)))
        \<and> m_particles (fst (mousePressed pt s)) ! i =
            (m_particles s ! i)\<lparr>part_v := part_v (m_particles (fst (mousePressed pt s)) ! i)\<rparr>)"
proof -
  let ?f = "\<lambda>q. if part_p q = pt then q
                 else q\<lparr>part_v := vadd (part_v q)
                        (smul (7 / distance pt (part_p q)) (vsub pt (part_p q)))\<rparr>"
  have ps: "m_particles (fst (mousePressed pt s)) = map ?f (m_particles s)"
    by (simp add: mousePressed_closed)
  have p1: "m_point (fst (mousePressed pt s)) = pt"
    by (simp add: mousePressed_closed)
  have p2: "length (m_particles (fst (mousePressed pt s))) = length (m_particles s)"
    by (simp add: ps)
  have p3: "fst (mousePressed pt s) =
       s\<lparr>m_particles := m_particles (fst (mousePressed pt s)), m_point := pt\<rparr>"
    by (simp add: mousePressed_closed)
  have p4: "snd (mousePressed pt s) =
       filter (\<lambda>i. part_p (m_particles s ! i) = pt) [0 ..< length (m_particles s)]"
    by (simp add: mousePressed_closed)
  have each: "vlength (vsub (part_v (?f q)) (part_v q)) = 7
              \<and> 0 < 7 / distance pt (part_p q)
              \<and> vsub (part_v (?f q)) (part_v q) =
                    smul (7 / distance pt (part_p q)) (vsub pt (part_p q))
              \<and> ?f q = q\<lparr>part_v := part_v (?f q)\<rparr>"
    if "part_p q \<noteq> pt" for q
  proof -
    have nz: "distance pt (part_p q) \<noteq> 0"
      using that by (auto simp: distance_def vlength_vsub_zero_iff)
    moreover have "0 \<le> distance pt (part_p q)"
      by (simp add: distance_def vlength_def)
    ultimately have pos: "0 < distance pt (part_p q)" by simp
    have len: "vlength (smul (7 / distance pt (part_p q)) (vsub pt (part_p q))) = 7"
      using pos by (simp add: vlength_smul distance_def)
    have inc: "vsub (part_v (?f q)) (part_v q) =
                 smul (7 / distance pt (part_p q)) (vsub pt (part_p q))"
      using that by (simp add: vsub_vadd_cancel)
    have same: "?f q = q\<lparr>part_v := part_v (?f q)\<rparr>"
      using that by simp
    have posd: "0 < 7 / distance pt (part_p q)"
      using pos by simp
    show ?thesis
      by (intro conjI) (simp only: inc len, rule posd, rule inc, rule same)
  qed
  have p5: "\<forall>i < length (m_particles s). part_p (m_particles s ! i) \<noteq> pt \<longrightarrow>
          vlength (vsub (part_v (m_particles (fst (mousePressed pt s)) ! i))
                        (part_v (m_particles s ! i))) = 7
        \<and> 0 < 7 / distance pt (part_p (m_particles s ! i))
        \<and> vsub (part_v (m_particles (fst (mousePressed pt s)) ! i)) (part_v (m_particles s ! i)) =
            smul (7 / distance pt (part_p (m_particles s ! i)))
              (vsub pt (part_p (m_particles s ! i)))
        \<and> m_particles (fst (mousePressed pt s)) ! i =
            (m_particles s ! i)\<lparr>part_v := part_v (m_particles (fst (mousePressed pt s)) ! i)\<rparr>"
  proof (intro allI impI)
    fix i
    assume i: "i < length (m_particles s)" and off: "part_p (m_particles s ! i) \<noteq> pt"
    have eq: "m_particles (fst (mousePressed pt s)) ! i = ?f (m_particles s ! i)"
      using i by (simp add: ps)
    show "vlength (vsub (part_v (m_particles (fst (mousePressed pt s)) ! i))
                        (part_v (m_particles s ! i))) = 7
        \<and> 0 < 7 / distance pt (part_p (m_particles s ! i))
        \<and> vsub (part_v (m_particles (fst (mousePressed pt s)) ! i)) (part_v (m_particles s ! i)) =
            smul (7 / distance pt (part_p (m_particles s ! i)))
              (vsub pt (part_p (m_particles s ! i)))
        \<and> m_particles (fst (mousePressed pt s)) ! i =
            (m_particles s ! i)\<lparr>part_v := part_v (m_particles (fst (mousePressed pt s)) ! i)\<rparr>"
      unfolding eq by (rule each [OF off])
  qed
  show ?thesis
    by (intro conjI) (rule p1 p2 p3 p4 p5)+
qed

theorem mousePressed_impulse_witness:
  "part_p (demo_particle 0 0 1 SOLID 0) \<noteq> dvec 1 0
   \<and> part_p (demo_particle 1 0 1 SOLID 0) = dvec 1 0
   \<and> snd (mousePressed (dvec 1 0)
            (demo_sim [demo_particle 0 0 1 SOLID 0, demo_particle 1 0 1 SOLID 0] [])) = [1]
   \<and> m_point (fst (mousePressed (dvec 1 0)
            (demo_sim [demo_particle 0 0 1 SOLID 0, demo_particle 1 0 1 SOLID 0] []))) = dvec 1 0
   \<and> part_v (m_particles (fst (mousePressed (dvec 1 0)
            (demo_sim [demo_particle 0 0 1 SOLID 0, demo_particle 1 0 1 SOLID 0] []))) ! 0)
       = dvec 7 0"
proof -
  let ?s = "demo_sim [demo_particle 0 0 1 SOLID 0, demo_particle 1 0 1 SOLID 0] []"
  note t = mousePressed_impulse [of "dvec 1 0" ?s]
  have off: "part_p (demo_particle 0 0 1 SOLID 0) \<noteq> dvec 1 0"
    and on: "part_p (demo_particle 1 0 1 SOLID 0) = dvec 1 0"
    by (simp_all add: demo_particle_def dvec_def)
  have ps: "m_particles ?s = [demo_particle 0 0 1 SOLID 0, demo_particle 1 0 1 SOLID 0]"
    by (simp add: demo_sim_def)
  from t have "m_point (fst (mousePressed (dvec 1 0) ?s)) = dvec 1 0"
    by (rule conjunct1)
  moreover from t have "snd (mousePressed (dvec 1 0) ?s) =
       filter (\<lambda>i. part_p (m_particles ?s ! i) = dvec 1 0) [0 ..< length (m_particles ?s)]"
    by (rule conjunct2 [THEN conjunct2, THEN conjunct2, THEN conjunct1])
  then have "snd (mousePressed (dvec 1 0) ?s) = [1]"
    unfolding ps using off on by (simp add: upt_rec)
  moreover from t have "\<forall>i < length (m_particles ?s). part_p (m_particles ?s ! i) \<noteq> dvec 1 0 \<longrightarrow>
        vsub (part_v (m_particles (fst (mousePressed (dvec 1 0) ?s)) ! i)) (part_v (m_particles ?s ! i)) =
            smul (7 / distance (dvec 1 0) (part_p (m_particles ?s ! i)))
              (vsub (dvec 1 0) (part_p (m_particles ?s ! i)))"
    by blast
  from this [rule_format, of 0] off
  have "vsub (part_v (m_particles (fst (mousePressed (dvec 1 0) ?s)) ! 0))
          (part_v (demo_particle 0 0 1 SOLID 0)) =
        smul (7 / distance (dvec 1 0) (part_p (demo_particle 0 0 1 SOLID 0)))
          (vsub (dvec 1 0) (part_p (demo_particle 0 0 1 SOLID 0)))"
    by (simp add: ps)
  then have "part_v (m_particles (fst (mousePressed (dvec 1 0) ?s)) ! 0) = dvec 7 0"
    by (simp add: demo_particle_def distance_def vlength_def vsub_def smul_def
        dvec_def dvec2_eq_iff)
  ultimately show ?thesis using off on by blast
qed

text \<open>
  The claim C3 as it is stated fails: for a particle at the origin and the point
  \<open>(1, 0)\<close>, the code adds \<open>(7, 0)\<close> to the velocity, which points toward the point; the
  outward impulse of the claim is \<open>(-7, 0)\<close>.
\<close>

theorem mousePressed_outward_counterexample:
  "mousePressed (dvec 1 0) (demo_sim [demo_particle 0 0 1 SOLID 0] []) =
     ((demo_sim [(demo_particle 0 0 1 SOLID 0)\<lparr>part_v := dvec 7 0\<rparr>] [])\<lparr>m_point := dvec 1 0\<rparr>, [])
   \<and> spec_press_step (dvec 1 0) (demo_particle 0 0 1 SOLID 0) =
       Some ((demo_particle 0 0 1 SOLID 0)\<lparr>part_v := dvec (- 7) 0\<rparr>)
   \<and> press_step (dvec 1 0) (demo_particle 0 0 1 SOLID 0) \<noteq>
       spec_press_step (dvec 1 0) (demo_particle 0 0 1 SOLID 0)"
  by (simp add: mousePressed_closed press_step_closed spec_press_step_def normalize_vec_def
      demo_sim_def demo_particle_def distance_def vlength_def vsub_def vadd_def smul_def
      dvec_def)


section \<open>Properties of createRigidBody\<close>

lemma sdf_entries_Cons:
  "sdf_entries offset sdfData (i # js) m =
     sdf_entries offset sdfData js (m(i + offset \<mapsto> sdfData ! i))"
  by (simp add: sdf_entries_def)

lemma sdf_entries_Nil: "sdf_entries offset sdfData [] m = m"
  by (simp add: sdf_entries_def)

lemma add_vertices_closed:
  assumes "\<forall>i \<in> set js. i < length sdfData"
  shows "add_vertices verts sdfData offset bodyIdx js st =
     (if \<exists>i \<in> set js. imass (verts ! i) = 0 then Inl (Exit1 infinite_mass_msg)
      else Inr (fst st + sum_list (map (\<lambda>i. 1 / imass (verts ! i)) js),
                fst (snd st) @ map (\<lambda>i. (verts ! i)\<lparr>bod := int bodyIdx, ph := SOLID\<rparr>) js,
                (snd (snd st))
                  \<lparr>body_particles := body_particles (snd (snd st)) @ map (\<lambda>i. i + offset) js,
                   body_sdf := sdf_entries offset sdfData js (body_sdf (snd (snd st)))\<rparr>))"
  using assms
proof (induction js arbitrary: st)
  case Nil
  show ?case by (simp add: sdf_entries_Nil)
next
  case (Cons i js)
  show ?case
  proof (cases "imass (verts ! i) = 0")
    case True
    then show ?thesis by (simp add: Let_def)
  next
    case False
    from Cons.prems have i: "i < length sdfData" and js: "\<forall>i \<in> set js. i < length sdfData"
      by simp_all
    show ?thesis
      using False i by (simp add: Let_def Cons.IH [OF js] add.assoc sdf_entries_Cons)
  qed
qed

lemma map_nth_fun: "map (\<lambda>i. f (xs ! i)) [0 ..< length xs] = map f xs"
  by (rule nth_equalityI) simp_all

lemma add_vertices_all:
  assumes "length verts \<le> length sdfData"
  shows "add_vertices verts sdfData offset bodyIdx [0 ..< length verts] (0, ps, new_Body) =
     (if \<exists>q \<in> set verts. imass q = 0 then Inl (Exit1 infinite_mass_msg)
      else Inr (sum_list (map (\<lambda>q. 1 / imass q) verts),
                ps @ map (\<lambda>q. q\<lparr>bod := int bodyIdx, ph := SOLID\<rparr>) verts,
                new_Body
                  \<lparr>body_particles := map (\<lambda>i. i + offset) [0 ..< length verts],
                   body_sdf := sdf_entries offset sdfData [0 ..< length verts] Map.empty\<rparr>))"
proof -
  have "\<forall>i \<in> set [0 ..< length verts]. i < length sdfData"
    using assms by simp
  moreover have "(\<exists>i < length verts. imass (verts ! i) = 0)
      \<longleftrightarrow> (\<exists>q \<in> set verts. imass q = 0)"
    by (metis in_set_conv_nth)
  then have "(\<exists>i \<in> set [0 ..< length verts]. imass (verts ! i) = 0)
      \<longleftrightarrow> (\<exists>q \<in> set verts. imass q = 0)"
    by (simp add: Bex_def)
  ultimately show ?thesis
    by (simp add: add_vertices_closed new_Body_def
        map_nth_fun [of "\<lambda>q. 1 / imass q" verts]
        map_nth_fun [of "\<lambda>q. q\<lparr>bod := int bodyIdx, ph := SOLID\<rparr>" verts] del: upt_Suc)
qed

lemma fold_upd_lookup:
  "inj key \<Longrightarrow>
   fold (\<lambda>i m. m(key i \<mapsto> val i)) js m (key j) = (if j \<in> set js then Some (val j) else m (key j))"
  by (induction js arbitrary: m) (auto simp: inj_eq)

lemma fold_indices_shift:
  assumes "length pre = offset"
  shows "fold (\<lambda>idx. G ((pre @ vs) ! idx)) (map (\<lambda>i. i + offset) [0 ..< length vs]) t = fold G vs t"
proof -
  have "fold (\<lambda>idx. G ((pre @ vs) ! idx)) (map (\<lambda>i. i + offset) [0 ..< length vs]) t =
        fold (\<lambda>i. G ((pre @ vs) ! (i + offset))) [0 ..< length vs] t"
    by (simp add: fold_map comp_def)
  also have "\<dots> = fold (\<lambda>i. G (vs ! i)) [0 ..< length vs] t"
    using assms by (intro fold_cong) (auto simp: nth_append)
  also have "\<dots> = fold G vs t"
    by (rule fold_index)
  finally show ?thesis .
qed

lemma createRigidBody_closed:
  assumes "length verts \<le> length sdfData"
  shows "createRigidBody verts sdfData s =
     (if length verts \<le> 1 then Inl (Exit1 too_few_msg)
      else if \<exists>q \<in> set verts. imass q = 0 then Inl (Exit1 infinite_mass_msg)
      else if sum_list (map (\<lambda>q. 1 / imass q) verts) = 0 then Inl NotANumber
      else
        let ps = m_particles s @ map (\<lambda>q. q\<lparr>bod := int (length (m_bodies s)), ph := SOLID\<rparr>) verts;
            body1 = new_Body
              \<lparr>body_particles := map (\<lambda>i. i + length (m_particles s)) [0 ..< length verts],
               body_sdf := sdf_entries (length (m_particles s)) sdfData [0 ..< length verts]
                             Map.empty,
               body_imass := 1 / sum_list (map (\<lambda>q. 1 / imass q) verts)\<rparr>;
            body4 = (computeRs (updateCOM body1 ps False) ps)
              \<lparr>shape := Some (TotalShapeConstraint (length (m_bodies s)))\<rparr>
        in Inr (body4, s\<lparr>m_particles := ps, m_bodies := m_bodies s @ [body4]\<rparr>))"
  by (simp add: createRigidBody_def add_vertices_all [OF assms] Let_def del: upt_Suc)

lemma sum_list_pos_real:
  "xs \<noteq> [] \<Longrightarrow> \<forall>x \<in> set xs. (0::real) < x \<Longrightarrow> 0 < sum_list xs"
proof (induction xs)
  case Nil
  then show ?case by simp
next
  case (Cons x xs)
  then show ?case by (cases xs) (auto intro: add_pos_pos)
qed

lemma updateCOM_new:
  assumes "length pre = offset"
  shows "com (updateCOM b (pre @ map (\<lambda>q. q\<lparr>bod := k, ph := SOLID\<rparr>) verts) False) =
     smul (body_imass b)
       (fold (\<lambda>idx total. vadd total
                (smul (1 / imass ((pre @ map (\<lambda>q. q\<lparr>bod := k, ph := SOLID\<rparr>) verts) ! idx))
                   (part_p ((pre @ map (\<lambda>q. q\<lparr>bod := k, ph := SOLID\<rparr>) verts) ! idx))))
          (body_particles b) (dvec 0 0))"
  by (simp add: updateCOM_def)

lemma weighted_sum_new:
  assumes "length pre = offset"
  shows "fold (\<lambda>idx total. vadd total
                (smul (1 / imass ((pre @ map (\<lambda>q. q\<lparr>bod := k, ph := SOLID\<rparr>) verts) ! idx))
                   (part_p ((pre @ map (\<lambda>q. q\<lparr>bod := k, ph := SOLID\<rparr>) verts) ! idx))))
          (map (\<lambda>i. i + offset) [0 ..< length verts]) t =
         fold (\<lambda>q total. vadd total (smul (1 / imass q) (part_p q))) verts t"
proof -
  let ?G = "\<lambda>q total. vadd total (smul (1 / imass q) (part_p q))"
  let ?vs = "map (\<lambda>q. q\<lparr>bod := k, ph := SOLID\<rparr>) verts"
  have "fold (\<lambda>idx. ?G ((pre @ ?vs) ! idx)) (map (\<lambda>i. i + offset) [0 ..< length ?vs]) t =
        fold ?G ?vs t"
    using assms by (rule fold_indices_shift)
  also have "\<dots> = fold ?G verts t"
    by (simp add: fold_map comp_def)
  finally show ?thesis by simp
qed

lemma computeRs_lookup:
  assumes "j \<in> set (body_particles b)"
  shows "body_rs (computeRs b ps) j = Some (vsub (part_p (ps ! j)) (com b))"
  using assms
    fold_upd_lookup [of "\<lambda>i. i" "\<lambda>idx. vsub (part_p (ps ! idx)) (com b)" "body_particles b"
      "body_rs b" j]
  by (simp add: computeRs_def)

lemma com_computeRs: "com (computeRs b ps) = com b"
  by (simp add: computeRs_def)

lemma sdf_entries_lookup:
  assumes "i < n"
  shows "sdf_entries offset sdfData [0 ..< n] m (offset + i) = Some (sdfData ! i)"
  using assms
    fold_upd_lookup [of "\<lambda>i. i + offset" "\<lambda>i. sdfData ! i" "[0 ..< n]" m i]
  by (simp add: sdf_entries_def add.commute)

text \<open>
  C7, as the code has it. Provided \<open>sdfData\<close> has an entry for every vertex,
  createRigidBody exits with a diagnostic exactly when \<open>verts\<close> has fewer than 2 particles
  or some particle of \<open>verts\<close> has \<open>imass = 0\<close>; it returns for at least 2 particles of
  positive inverse mass; and when it returns the body \<open>b\<close>, every particle of \<open>verts\<close> has
  been appended to the simulation with the phase SOLID and \<open>bod\<close> the index of the new
  body, the body has been appended to the bodies, its particles are the indices of the
  appended particles, its inverse mass is \<open>1 / \<Sum>(1 / imass)\<close>, its center of mass is the
  mass-weighted mean of the positions, its offsets \<open>r_i\<close> are the positions minus the
  center of mass, its SDF data are those of \<open>sdfData\<close>, and its shape constraint is a new
  TotalShapeConstraint of this body.
\<close>

theorem createRigidBody_contract:
  assumes "length verts \<le> length sdfData"
  shows "((\<exists>msg. createRigidBody verts sdfData s = Inl (Exit1 msg))
            \<longleftrightarrow> length verts < 2 \<or> (\<exists>q \<in> set verts. imass q = 0))
       \<and> (2 \<le> length verts \<and> (\<forall>q \<in> set verts. 0 < imass q)
            \<longrightarrow> (\<exists>b s'. createRigidBody verts sdfData s = Inr (b, s')))
       \<and> (\<forall>b s'. createRigidBody verts sdfData s = Inr (b, s') \<longrightarrow>
             s' = s\<lparr>m_particles := m_particles s
                        @ map (\<lambda>q. q\<lparr>bod := int (length (m_bodies s)), ph := SOLID\<rparr>) verts,
                     m_bodies := m_bodies s @ [b]\<rparr>
           \<and> body_particles b =
               [length (m_particles s) ..< length (m_particles s) + length verts]
           \<and> body_imass b = 1 / (\<Sum>q\<leftarrow>verts. 1 / imass q)
           \<and> com b = smul (body_imass b)
                        (fold (\<lambda>q total. vadd total (smul (1 / imass q) (part_p q))) verts
                           (dvec 0 0))
           \<and> (\<forall>i < length verts.
                 body_rs b (length (m_particles s) + i) = Some (vsub (part_p (verts ! i)) (com b))
               \<and> body_sdf b (length (m_particles s) + i) = Some (sdfData ! i))
           \<and> shape b = Some (TotalShapeConstraint (length (m_bodies s))))"
proof (intro conjI allI impI)
  note closed = createRigidBody_closed [OF assms, of s]
  show "(\<exists>msg. createRigidBody verts sdfData s = Inl (Exit1 msg))
            \<longleftrightarrow> length verts < 2 \<or> (\<exists>q \<in> set verts. imass q = 0)"
    unfolding closed by (auto simp: Let_def)
  {
    assume ok: "2 \<le> length verts \<and> (\<forall>q \<in> set verts. 0 < imass q)"
    then have "verts \<noteq> []" by auto
    with ok have "0 < sum_list (map (\<lambda>q. 1 / imass q) verts)"
      by (intro sum_list_pos_real) auto
    with ok show "\<exists>b s'. createRigidBody verts sdfData s = Inr (b, s')"
      unfolding closed by (auto simp: Let_def)
  }
  fix b s'
  assume r: "createRigidBody verts sdfData s = Inr (b, s')"
  let ?off = "length (m_particles s)"
  let ?ps = "m_particles s @ map (\<lambda>q. q\<lparr>bod := int (length (m_bodies s)), ph := SOLID\<rparr>) verts"
  let ?b1 = "new_Body
              \<lparr>body_particles := map (\<lambda>i. i + ?off) [0 ..< length verts],
               body_sdf := sdf_entries ?off sdfData [0 ..< length verts] Map.empty,
               body_imass := 1 / sum_list (map (\<lambda>q. 1 / imass q) verts)\<rparr>"
  from r have b: "b = (computeRs (updateCOM ?b1 ?ps False) ?ps)
              \<lparr>shape := Some (TotalShapeConstraint (length (m_bodies s)))\<rparr>"
    and s': "s' = s\<lparr>m_particles := ?ps, m_bodies := m_bodies s @ [b]\<rparr>"
    unfolding closed by (auto simp: Let_def split: if_splits)
  have parts: "body_particles b = map (\<lambda>i. i + ?off) [0 ..< length verts]"
    by (simp add: b computeRs_def updateCOM_def)
  have com_b: "com b = com (updateCOM ?b1 ?ps False)"
    by (simp add: b computeRs_def)
  show "s' = s\<lparr>m_particles := ?ps, m_bodies := m_bodies s @ [b]\<rparr>"
    by (rule s')
  show "body_particles b = [?off ..< ?off + length verts]"
    unfolding parts by (simp add: map_add_upt add.commute)
  show im: "body_imass b = 1 / (\<Sum>q\<leftarrow>verts. 1 / imass q)"
    by (simp add: b computeRs_def updateCOM_def)
  have "com (updateCOM ?b1 ?ps False) =
      smul (body_imass ?b1)
        (fold (\<lambda>q total. vadd total (smul (1 / imass q) (part_p q))) verts (dvec 0 0))"
    unfolding updateCOM_new [OF refl]
    using weighted_sum_new [OF refl, of "m_particles s" "int (length (m_bodies s))" verts "dvec 0 0"]
    by simp
  then show "com b = smul (body_imass b)
                        (fold (\<lambda>q total. vadd total (smul (1 / imass q) (part_p q))) verts
                           (dvec 0 0))"
    unfolding com_b im by simp
  show "shape b = Some (TotalShapeConstraint (length (m_bodies s)))"
    by (simp add: b)
  fix i
  assume i: "i < length verts"
  then have "?off + i \<in> set (body_particles (updateCOM ?b1 ?ps False))"
    by (auto simp: updateCOM_def image_iff add.commute intro!: bexI [of _ i])
  from computeRs_lookup [OF this, of ?ps]
  show "body_rs b (?off + i) = Some (vsub (part_p (verts ! i)) (com b))"
    using i by (simp add: b com_computeRs nth_append)
  show "body_sdf b (?off + i) = Some (sdfData ! i)"
    using i by (simp add: b computeRs_def updateCOM_def sdf_entries_lookup)
qed

theorem createRigidBody_contract_witness:
  "length [demo_particle 0 0 1 FLUID (- 1), demo_particle 2 0 1 FLUID (- 1)]
     \<le> length [demo_sdf, demo_sdf]
   \<and> (\<exists>b s'. createRigidBody [demo_particle 0 0 1 FLUID (- 1), demo_particle 2 0 1 FLUID (- 1)]
                 [demo_sdf, demo_sdf] (demo_sim [] []) = Inr (b, s')
            \<and> map ph (m_particles s') = [SOLID, SOLID]
            \<and> map bod (m_particles s') = [0, 0]
            \<and> m_bodies s' = [b]
            \<and> body_particles b = [0, 1]
            \<and> body_imass b = 1 / 2
            \<and> com b = dvec 1 0
            \<and> body_rs b 0 = Some (dvec (- 1) 0)
            \<and> shape b = Some (TotalShapeConstraint 0))
   \<and> (\<exists>msg. createRigidBody [demo_particle 0 0 1 FLUID (- 1)] [demo_sdf, demo_sdf]
                (demo_sim [] []) = Inl (Exit1 msg))
   \<and> (\<exists>msg. createRigidBody [demo_particle 0 0 1 FLUID (- 1), demo_particle 2 0 0 FLUID (- 1)]
                [demo_sdf, demo_sdf] (demo_sim [] []) = Inl (Exit1 msg))"
proof -
  let ?A = "demo_particle 0 0 1 FLUID (- 1)" and ?B = "demo_particle 2 0 1 FLUID (- 1)"
  let ?s = "demo_sim [] [] :: unit Simulation"
  have len: "length [?A, ?B] \<le> length [demo_sdf, demo_sdf]" by simp
  note c = createRigidBody_contract [OF len, of ?s]
  have "2 \<le> length [?A, ?B] \<and> (\<forall>q \<in> set [?A, ?B]. 0 < imass q)"
    by (simp add: demo_particle_def)
  with c obtain b s' where r: "createRigidBody [?A, ?B] [demo_sdf, demo_sdf] ?s = Inr (b, s')"
    by blast
  note q = c [THEN conjunct2, THEN conjunct2, rule_format, OF r]
  from q have p1: "s' = ?s\<lparr>m_particles := m_particles ?s
                        @ map (\<lambda>q. q\<lparr>bod := int (length (m_bodies ?s)), ph := SOLID\<rparr>) [?A, ?B],
                     m_bodies := m_bodies ?s @ [b]\<rparr>"
    by (rule conjunct1)
  from q have p2: "body_particles b =
      [length (m_particles ?s) ..< length (m_particles ?s) + length [?A, ?B]]"
    by blast
  from q have p3: "body_imass b = 1 / (\<Sum>q\<leftarrow>[?A, ?B]. 1 / imass q)"
    by blast
  from q have p4: "com b = smul (body_imass b)
                 (fold (\<lambda>q total. vadd total (smul (1 / imass q) (part_p q))) [?A, ?B] (dvec 0 0))"
    by blast
  from q have "\<forall>i < length [?A, ?B].
                 body_rs b (length (m_particles ?s) + i) = Some (vsub (part_p ([?A, ?B] ! i)) (com b))
               \<and> body_sdf b (length (m_particles ?s) + i) = Some ([demo_sdf, demo_sdf] ! i)"
    by blast
  from this [rule_format, of 0]
  have p5: "body_rs b (length (m_particles ?s) + 0) = Some (vsub (part_p ([?A, ?B] ! 0)) (com b))"
    by simp
  from q have p6: "shape b = Some (TotalShapeConstraint (length (m_bodies ?s)))"
    by blast
  have im: "body_imass b = 1 / 2"
    using p3 by (simp add: demo_particle_def)
  have cm: "com b = dvec 1 0"
    using p4 unfolding im by (simp add: demo_particle_def vadd_def smul_def dvec_def)
  have rs: "body_rs b 0 = Some (dvec (- 1) 0)"
    using p5 unfolding cm by (simp add: demo_sim_def demo_particle_def vsub_def dvec_def)
  have good: "\<exists>b s'. createRigidBody [?A, ?B] [demo_sdf, demo_sdf] ?s = Inr (b, s')
            \<and> map ph (m_particles s') = [SOLID, SOLID]
            \<and> map bod (m_particles s') = [0, 0]
            \<and> m_bodies s' = [b]
            \<and> body_particles b = [0, 1]
            \<and> body_imass b = 1 / 2
            \<and> com b = dvec 1 0
            \<and> body_rs b 0 = Some (dvec (- 1) 0)
            \<and> shape b = Some (TotalShapeConstraint 0)"
    using r p1 p2 p6 im cm rs
    by (intro exI [of _ b] exI [of _ s']) (simp add: demo_sim_def upt_rec)
  have few: "\<exists>msg. createRigidBody [?A] [demo_sdf, demo_sdf] ?s = Inl (Exit1 msg)"
    using createRigidBody_contract [of "[?A]" "[demo_sdf, demo_sdf]" ?s] by simp
  have inf: "\<exists>msg. createRigidBody [?A, demo_particle 2 0 0 FLUID (- 1)] [demo_sdf, demo_sdf] ?s
                = Inl (Exit1 msg)"
    using createRigidBody_contract [of "[?A, demo_particle 2 0 0 FLUID (- 1)]"
        "[demo_sdf, demo_sdf]" ?s]
    by (simp add: demo_particle_def)
  from len good few inf show ?thesis by blast
qed

text \<open>
  The claim C7 as it is stated fails when \<open>sdfData\<close> is shorter than \<open>verts\<close>: two
  particles of inverse mass 1 and an empty \<open>sdfData\<close> pass both checks of the claim, and
  the call ends in \<^verbatim>\<open>sdfData->at(0)\<close> outside the list, with no body created.
\<close>

theorem createRigidBody_sdf_counterexample:
  "length [demo_particle 0 0 1 FLUID (- 1), demo_particle 2 0 1 FLUID (- 1)] = 2
   \<and> imass (demo_particle 0 0 1 FLUID (- 1)) = 1
   \<and> imass (demo_particle 2 0 1 FLUID (- 1)) = 1
   \<and> createRigidBody [demo_particle 0 0 1 FLUID (- 1), demo_particle 2 0 1 FLUID (- 1)] []
        (demo_sim [] []) = Inl IndexOutOfRange"
  by (simp add: createRigidBody_def demo_particle_def upt_rec Let_def)

section \<open>Properties of clear and init\<close>

lemma fold_index_rev: "fold (\<lambda>j. f (l ! j)) (rev [0 ..< length l]) a = fold f (rev l) a"
proof -
  have "fold (\<lambda>j. f (l ! j)) (rev [0 ..< length l]) a =
        fold f (map (\<lambda>j. l ! j) (rev [0 ..< length l])) a"
    by (simp add: fold_map comp_def)
  also have "map (\<lambda>j. l ! j) (rev [0 ..< length l]) = rev l"
    by (simp add: rev_map [symmetric] map_nth)
  finally show ?thesis .
qed

lemma remove_from_groups:
  "distinct ks \<Longrightarrow>
   fold (\<lambda>k h'. case h' k of None \<Rightarrow> h' | Some l \<Rightarrow> h'(k \<mapsto> removeAll c l)) ks h =
     (\<lambda>g. if g \<in> set ks then map_option (removeAll c) (h g) else h g)"
proof (induction ks arbitrary: h)
  case Nil
  show ?case by simp
next
  case (Cons k ks)
  then have IH: "\<And>h. fold (\<lambda>k h'. case h' k of None \<Rightarrow> h' | Some l \<Rightarrow> h'(k \<mapsto> removeAll c l)) ks h =
     (\<lambda>g. if g \<in> set ks then map_option (removeAll c) (h g) else h g)"
    and k: "k \<notin> set ks" by simp_all
  show ?case
    using k by (cases "h k") (auto simp: IH intro!: ext)
qed

lemma remove_everywhere_closed:
  "remove_everywhere c h = (\<lambda>g. map_option (removeAll c) (h g))"
proof -
  let ?F = "\<lambda>k h'. case h' k of None \<Rightarrow> h' | Some l \<Rightarrow> h'(k \<mapsto> removeAll c l)"
  have "remove_everywhere c h = fold ?F constraint_groups h"
    unfolding remove_everywhere_def NUM_CONSTRAINT_GROUPS_def
    by (rule fold_index)
  also have "\<dots> = (\<lambda>g. if g \<in> set constraint_groups then map_option (removeAll c) (h g) else h g)"
    by (rule remove_from_groups) (simp add: constraint_groups_def)
  finally show ?thesis by (simp add: set_constraint_groups)
qed

lemma remove_all_of:
  "fold (\<lambda>c h'. (\<lambda>g. map_option (removeAll c) (h' g))) cs h =
     (\<lambda>g. map_option (filter (\<lambda>x. x \<notin> set cs)) (h g))"
proof (induction cs arbitrary: h)
  case Nil
  show ?case by (simp add: option.map_ident)
next
  case (Cons c cs)
  have "\<And>l. filter (\<lambda>x. x \<notin> set cs) (removeAll c l) = filter (\<lambda>x. x \<noteq> c \<and> x \<notin> set cs) l"
    by (auto simp: removeAll_filter_not_eq intro: filter_cong)
  then show ?case
    by (simp add: Cons.IH option.map_comp comp_def)
qed

lemma clear_group_closed:
  "clear_group i h =
     (case h (constraint_groups ! i) of
        None \<Rightarrow> h
      | Some grp \<Rightarrow> (\<lambda>g. map_option (filter (\<lambda>x. x \<notin> set grp)) (h g)))"
proof (cases "h (constraint_groups ! i)")
  case None
  then show ?thesis by (simp add: clear_group_def)
next
  case (Some grp)
  have "fold (\<lambda>j h'. remove_everywhere (grp ! j) h') (rev [0 ..< length grp]) h =
        fold (\<lambda>c h'. remove_everywhere c h') (rev grp) h"
    by (rule fold_index_rev)
  also have "\<dots> = (\<lambda>g. map_option (filter (\<lambda>x. x \<notin> set (rev grp))) (h g))"
    unfolding remove_everywhere_closed by (rule remove_all_of)
  finally show ?thesis using Some by (simp add: clear_group_def)
qed

lemma clear_group_dom: "clear_group i h g = None \<longleftrightarrow> h g = None"
  by (simp add: clear_group_closed split: option.splits)

lemma clear_group_empty_stays:
  "h g = Some [] \<Longrightarrow> clear_group i h g = Some []"
  by (simp add: clear_group_closed split: option.splits)

lemma clear_group_empties:
  "h (constraint_groups ! i) = Some grp \<Longrightarrow> clear_group i h (constraint_groups ! i) = Some []"
  by (simp add: clear_group_closed)

lemma clear_prefix:
  "i \<le> length constraint_groups \<Longrightarrow>
   (\<forall>g. fold clear_group [0 ..< i] h g = None \<longleftrightarrow> h g = None)
   \<and> (\<forall>k < i. h (constraint_groups ! k) \<noteq> None \<longrightarrow>
          fold clear_group [0 ..< i] h (constraint_groups ! k) = Some [])"
proof (induction i)
  case 0
  show ?case by simp
next
  case (Suc i)
  let ?h = "fold clear_group [0 ..< i] h"
  from Suc have dom: "\<And>g. ?h g = None \<longleftrightarrow> h g = None"
    and emptied: "\<And>k. k < i \<Longrightarrow> h (constraint_groups ! k) \<noteq> None \<Longrightarrow>
          ?h (constraint_groups ! k) = Some []"
    by simp_all
  have step: "fold clear_group [0 ..< Suc i] h = clear_group i ?h" by simp
  show ?case
  proof (intro conjI allI impI)
    fix g
    show "fold clear_group [0 ..< Suc i] h g = None \<longleftrightarrow> h g = None"
      unfolding step by (simp add: clear_group_dom dom)
  next
    fix k
    assume k: "k < Suc i" and some: "h (constraint_groups ! k) \<noteq> None"
    show "fold clear_group [0 ..< Suc i] h (constraint_groups ! k) = Some []"
    proof (cases "k = i")
      case True
      from some dom [of "constraint_groups ! k"] obtain grp
        where "?h (constraint_groups ! k) = Some grp" by auto
      then show ?thesis unfolding step True [symmetric]
        using True clear_group_empties by simp
    next
      case False
      with k have "k < i" by simp
      from emptied [OF this some] show ?thesis
        unfolding step by (rule clear_group_empty_stays)
    qed
  qed
qed

lemma clear_globals_closed: "clear_globals h = (\<lambda>g. map_option (\<lambda>_. []) (h g))"
proof (rule ext)
  fix g
  from set_constraint_groups [of g] obtain k
    where k: "k < length constraint_groups" "g = constraint_groups ! k"
    by (auto simp: in_set_conv_nth)
  from clear_prefix [of "length constraint_groups" h] k
  show "clear_globals h g = map_option (\<lambda>_. []) (h g)"
    unfolding clear_globals_def NUM_CONSTRAINT_GROUPS_def
    by (cases "h g") auto
qed

lemma clear_closed:
  "clear s = s\<lparr>m_particles := [], m_bodies := [],
               m_globalConstraints := (\<lambda>g. map_option (\<lambda>_. []) (m_globalConstraints s g))\<rparr>"
  by (simp add: clear_def delete_all_eq clear_globals_closed)

text \<open>
  C10. clear removes every particle and every body and empties the list of every group
  of global constraints. For every scene tag, init hands to the scene builder the
  cleared simulation with the gravity reset: a simulation that has no
  particle and no body, in which the list of every group of global constraints is
  empty, and whose gravity is \<open>(0, -9.8)\<close>; the result of init is what the builder
  returns for it, with the standard solver set up. So the result does not depend on
  the particles, bodies, global constraints and gravity that the simulation had before
  the call.
\<close>

theorem init_clears_first:
  "clear s = s\<lparr>m_particles := [], m_bodies := [],
               m_globalConstraints := (\<lambda>g. map_option (\<lambda>_. []) (m_globalConstraints s g))\<rparr>
   \<and> init_prepare s = (clear s)\<lparr>m_gravity := dvec 0 (- (98 / 10))\<rparr>
   \<and> m_particles (init_prepare s) = [] \<and> m_bodies (init_prepare s) = []
   \<and> (\<forall>g l. m_globalConstraints (init_prepare s) g = Some l \<longrightarrow> l = [])
   \<and> m_gravity (init_prepare s) = dvec 0 (- (98 / 10))
   \<and> init cfg sc type s =
       (case build_scene sc type (init_prepare s) of
          Inl e \<Rightarrow> Inl e
        | Inr s3 \<Rightarrow>
            Inr (s3\<lparr>m_standardSolver := setupM cfg (m_standardSolver s3) (m_particles s3) False\<rparr>))
   \<and> (dom h2 = dom (m_globalConstraints s) \<longrightarrow>
        init cfg sc type
          (s\<lparr>m_particles := ps, m_bodies := bs, m_globalConstraints := h2, m_gravity := gv\<rparr>)
        = init cfg sc type s)"
proof (intro conjI allI impI)
  show "clear s = s\<lparr>m_particles := [], m_bodies := [],
               m_globalConstraints := (\<lambda>g. map_option (\<lambda>_. []) (m_globalConstraints s g))\<rparr>"
    by (rule clear_closed)
  show "init_prepare s = (clear s)\<lparr>m_gravity := dvec 0 (- (98 / 10))\<rparr>"
    by (rule init_prepare_def)
  show "m_particles (init_prepare s) = []" by (simp add: init_prepare_def clear_closed)
  show "m_bodies (init_prepare s) = []" by (simp add: init_prepare_def clear_closed)
  show "m_gravity (init_prepare s) = dvec 0 (- (98 / 10))"
    by (simp add: init_prepare_def)
  show "init cfg sc type s =
       (case build_scene sc type (init_prepare s) of
          Inl e \<Rightarrow> Inl e
        | Inr s3 \<Rightarrow>
            Inr (s3\<lparr>m_standardSolver := setupM cfg (m_standardSolver s3) (m_particles s3) False\<rparr>))"
    by (simp add: init_def)
next
  fix g l
  assume "m_globalConstraints (init_prepare s) g = Some l"
  then show "l = []" by (auto simp: init_prepare_def clear_closed)
next
  assume d: "dom h2 = dom (m_globalConstraints s)"
  have "(\<lambda>g. map_option (\<lambda>_. [] :: Constraint list) (h2 g)) =
        (\<lambda>g. map_option (\<lambda>_. []) (m_globalConstraints s g))"
  proof (rule ext)
    fix g
    from d have "h2 g = None \<longleftrightarrow> m_globalConstraints s g = None"
      by (metis domIff)
    then show "map_option (\<lambda>_. [] :: Constraint list) (h2 g) =
        map_option (\<lambda>_. []) (m_globalConstraints s g)"
      by (cases "h2 g"; cases "m_globalConstraints s g") simp_all
  qed
  then have "init_prepare (s\<lparr>m_particles := ps, m_bodies := bs, m_globalConstraints := h2,
                 m_gravity := gv\<rparr>) = init_prepare s"
    by (simp add: init_prepare_def clear_closed)
  then show "init cfg sc type
          (s\<lparr>m_particles := ps, m_bodies := bs, m_globalConstraints := h2, m_gravity := gv\<rparr>)
        = init cfg sc type s"
    by (simp add: init_def)
qed

theorem init_clears_first_witness:
  "m_globalConstraints (init_prepare used_sim) STANDARD = Some []
   \<and> m_particles (init_prepare used_sim) = []
   \<and> dom [STANDARD \<mapsto> ([] :: Constraint list)] = dom (m_globalConstraints used_sim)
   \<and> init demo_config demo_scenes PENDULUM_TEST used_sim =
       init demo_config demo_scenes PENDULUM_TEST
         (used_sim\<lparr>m_particles := [], m_bodies := [], m_globalConstraints := [STANDARD \<mapsto> []],
                   m_gravity := dvec 0 0\<rparr>)
   \<and> (\<exists>s'. init demo_config demo_scenes PENDULUM_TEST used_sim = Inr s'
          \<and> m_particles s' = [demo_particle 5 0 1 SOLID (- 1)]
          \<and> m_bodies s' = []
          \<and> m_gravity s' = dvec 0 (- (98 / 10)))"
proof -
  have some: "\<exists>l. m_globalConstraints (init_prepare used_sim) STANDARD = Some l"
    by (simp add: init_prepare_def clear_closed used_sim_def)
  have d: "dom [STANDARD \<mapsto> ([] :: Constraint list)] = dom (m_globalConstraints used_sim)"
    by (simp add: used_sim_def)
  note t = init_clears_first [where s = used_sim and cfg = demo_config and sc = demo_scenes
      and type = PENDULUM_TEST and ?h2.0 = "[STANDARD \<mapsto> []]" and ps = "[]" and bs = "[]"
      and gv = "dvec 0 0"]
  note t' = t [THEN conjunct2, THEN conjunct2]
  note p = t' [THEN conjunct1]
  note b = t' [THEN conjunct2, THEN conjunct1]
  note l = t' [THEN conjunct2, THEN conjunct2, THEN conjunct1]
  note g = t' [THEN conjunct2, THEN conjunct2, THEN conjunct2, THEN conjunct1]
  note i = t' [THEN conjunct2, THEN conjunct2, THEN conjunct2, THEN conjunct2, THEN conjunct1]
  note ind = t' [THEN conjunct2, THEN conjunct2, THEN conjunct2, THEN conjunct2, THEN conjunct2]
  from some obtain l0 where l0: "m_globalConstraints (init_prepare used_sim) STANDARD = Some l0" ..
  from l [rule_format, OF l0] l0
  have e: "m_globalConstraints (init_prepare used_sim) STANDARD = Some []"
    by simp
  from ind [THEN mp, OF d]
  have same: "init demo_config demo_scenes PENDULUM_TEST used_sim =
       init demo_config demo_scenes PENDULUM_TEST
         (used_sim\<lparr>m_particles := [], m_bodies := [], m_globalConstraints := [STANDARD \<mapsto> []],
                   m_gravity := dvec 0 0\<rparr>)"
    by (rule sym)
  have ex: "\<exists>s'. init demo_config demo_scenes PENDULUM_TEST used_sim = Inr s'
          \<and> m_particles s' = [demo_particle 5 0 1 SOLID (- 1)]
          \<and> m_bodies s' = []
          \<and> m_gravity s' = dvec 0 (- (98 / 10))"
    unfolding i using p b g by (simp add: demo_scenes_def demo_builder_def)
  show ?thesis
    by (intro conjI) (rule e p d same ex)+
qed

section \<open>Particles with inverse mass zero\<close>









lemma force_step_with_guess: "force_step_with guess = force_step"
  by (intro ext) (simp add: force_step_with_def force_step_def)

lemma tick_forces_with_guess: "tick_forces_with guess = tick_forces"
  by (intro ext) (simp add: tick_forces_with_def tick_forces_def force_step_with_guess)

lemma tick_run_with_guess: "tick_run_with guess cfg dt s = tick_run cfg dt s"
  unfolding tick_run_with_def tick_run_def tick_forces_with_guess ..

lemma guess_immovable_differs:
  "guess_immovable dt q = guess dt q \<longleftrightarrow> imass q \<noteq> 0 \<or> smul dt (part_v q) = dvec 0 0"
  by (auto simp: guess_immovable_def guess_def vadd_def smul_def dvec_def dvec2_eq_iff)








end
